theory Spec2Isabelle
  imports Main "HOL-Library.AList" "HOL-Library.Sublist"
begin

section \<open>The design step of MetaGPT: \<open>metagpt/actions/design_api.py\<close>\<close>

text \<open>
  A shallow embedding of the class \<open>WriteDesign\<close>. The step reads two document
  repositories (requirement documents and system designs), asks a language model for a
  design for every changed file name, and writes the design, two diagrams and a PDF.

  Everything outside the file (the language model, the document repositories, the
  renderers) is a collaborator: its answers are parameters of the model (the record
  \<open>env\<close>), and every call to it is logged in a trace of events, in the order in which
  the code awaits them. An exception is the left summand of a result.
\<close>

subsection \<open>Strings, JSON values and documents\<close>

text \<open>
  A Python string is a list of characters (one \<open>char\<close> per code point, so code points
  below 256), or the serialisation of a JSON value: the text that \<open>.json()\<close> of a
  pydantic object, or \<open>json.dumps\<close>, returns. The second form keeps the serialiser
  abstract: \<open>Dumps j\<close> is a text that \<open>json.loads\<close> reads back as \<open>j\<close>.
\<close>

datatype json =
    JNull
  | JBool bool
  | JInt int
  | JStr pystr
  | JArr "json list"
  | JObj "(string \<times> json) list"
and pystr =
    Plain string
  | Dumps json

datatype error =
    AttributeError
  | ValueError
  | JSONDecodeError
  | External string

text \<open>\<open>metagpt.schema.Document\<close>: three string fields.\<close>

record document =
  root_path :: string
  filename :: string
  content :: pystr

text \<open>\<open>metagpt.schema.Documents\<close>: a dict from file name to document, in insertion order.\<close>

record documents =
  docs :: "(string \<times> document) list"

text \<open>
  The object that \<open>_aask_v1\<close> builds from \<open>OUTPUT_MAPPING\<close>: one attribute per key of
  the mapping, five of type \<open>str\<close> and one of type \<open>List[str]\<close>.
\<close>

record system_design =
  Implementation_approach :: string
  Python_package_name :: string
  File_list :: "string list"
  Data_structures_and_interface_definitions :: string
  Program_call_flow :: string
  Anything_UNCLEAR :: string

text \<open>\<open>metagpt.actions.ActionOutput\<close>: the raw text and the structured object.\<close>

record 'a ActionOutput =
  output_content :: pystr
  instruct_content :: 'a

text \<open>The keys of \<open>OUTPUT_MAPPING\<close>, in the order of the source.\<close>

definition OUTPUT_MAPPING :: "string list" where
  "OUTPUT_MAPPING =
     [''Implementation approach'', ''Python package name'', ''File list'',
      ''Data structures and interface definitions'', ''Program call flow'',
      ''Anything UNCLEAR'']"

text \<open>
  Modelled from the spec: the pydantic class of the structured output is not in the
  sources. \<open>.json()\<close> of such an object is the JSON object of its six attributes
  ("a JSON-serialized object with six fixed string/array fields"); \<open>instruct_json\<close> is
  that JSON object, \<open>json_of\<close> its text.
\<close>

definition instruct_json :: "system_design \<Rightarrow> json" where
  "instruct_json d =
     JObj [(''Implementation approach'', JStr (Plain (Implementation_approach d))),
           (''Python package name'', JStr (Plain (Python_package_name d))),
           (''File list'', JArr (map (\<lambda>f. JStr (Plain f)) (File_list d))),
           (''Data structures and interface definitions'',
              JStr (Plain (Data_structures_and_interface_definitions d))),
           (''Program call flow'', JStr (Plain (Program_call_flow d))),
           (''Anything UNCLEAR'', JStr (Plain (Anything_UNCLEAR d)))]"

definition json_of :: "system_design \<Rightarrow> pystr" where
  "json_of d = Dumps (instruct_json d)"

text \<open>
  Modelled from the spec: the schema validation of the structured output is not in the
  sources. \<open>parse_design\<close> reads a JSON value back against \<open>OUTPUT_MAPPING\<close>: an object
  with exactly the six keys, five strings and one list of strings.
\<close>

fun plain_str :: "json \<Rightarrow> string option" where
  "plain_str (JStr (Plain s)) = Some s"
| "plain_str _ = None"

fun plain_strs :: "json list \<Rightarrow> string list option" where
  "plain_strs [] = Some []"
| "plain_strs (j # js) =
     (case plain_str j of
        None \<Rightarrow> None
      | Some s \<Rightarrow> (case plain_strs js of None \<Rightarrow> None | Some ss \<Rightarrow> Some (s # ss)))"

fun str_list :: "json \<Rightarrow> string list option" where
  "str_list (JArr js) = plain_strs js"
| "str_list _ = None"

fun parse_design :: "json \<Rightarrow> system_design option" where
  "parse_design (JObj [(k1, a), (k2, b), (k3, c), (k4, d), (k5, e), (k6, f)]) =
     (if [k1, k2, k3, k4, k5, k6] = OUTPUT_MAPPING then
        (case (plain_str a, plain_str b, str_list c, plain_str d, plain_str e, plain_str f) of
           (Some a', Some b', Some c', Some d', Some e', Some f') \<Rightarrow>
             Some \<lparr>Implementation_approach = a', Python_package_name = b', File_list = c',
                   Data_structures_and_interface_definitions = d', Program_call_flow = e',
                   Anything_UNCLEAR = f'\<rparr>
         | _ \<Rightarrow> None)
      else None)"
| "parse_design _ = None"

text \<open>\<open>Documents.json()\<close>: the dict of documents as a JSON object.\<close>

definition document_json :: "document \<Rightarrow> json" where
  "document_json d =
     JObj [(''root_path'', JStr (Plain (root_path d))),
           (''filename'', JStr (Plain (filename d))),
           (''content'', JStr (content d))]"

definition documents_json :: "documents \<Rightarrow> pystr" where
  "documents_json ds =
     Dumps (JObj [(''docs'', JObj (map (\<lambda>(k, d). (k, document_json d)) (docs ds)))])"

subsection \<open>Python's string and path operations\<close>

text \<open>
  \<open>str.strip()\<close> removes the characters for which \<open>str.isspace\<close> holds from both
  ends; below code point 256 these are 9 to 13, 28 to 32, 133 and 160.
  \<open>str.strip(chars)\<close> removes the characters of \<open>chars\<close> from both ends.
\<close>

definition isspace :: "char \<Rightarrow> bool" where
  "isspace c =
     (of_char c \<in> {9, 10, 11, 12, 13, 28, 29, 30, 31, 32, 133, 160 :: nat})"

definition strip_chars :: "(char \<Rightarrow> bool) \<Rightarrow> string \<Rightarrow> string" where
  "strip_chars P s = rev (dropWhile P (rev (dropWhile P s)))"

definition strip :: "string \<Rightarrow> string" where
  "strip s = strip_chars isspace s"

definition single_quote :: char where
  "single_quote = CHR 0x27"

definition double_quote :: char where
  "double_quote = CHR 0x22"

text \<open>
  The expression of lines 238 and 251:
  \<open>.strip().strip("'").strip('"')\<close>.
\<close>

definition fix_package_name :: "string \<Rightarrow> string" where
  "fix_package_name s =
     strip_chars (\<lambda>c. c = double_quote) (strip_chars (\<lambda>c. c = single_quote) (strip s))"

text \<open>
  \<open>os.path.join\<close> and the \<open>/\<close> of \<open>pathlib\<close> on two parts: an absolute second
  part replaces the first. File names are taken as normalised relative paths, as the
  repositories list them; \<open>pathlib\<close>'s normalisation is not modelled.
\<close>

definition path_join :: "string \<Rightarrow> string \<Rightarrow> string" where
  "path_join a b =
     (if b \<noteq> [] \<and> hd b = CHR ''/'' then b
      else if a = [] \<or> last a = CHR ''/'' then a @ b
      else a @ ''/'' @ b)"

text \<open>\<open>Document.root_relative_path\<close>.\<close>

definition root_relative_path :: "document \<Rightarrow> string" where
  "root_relative_path d = path_join (root_path d) (filename d)"

text \<open>
  \<open>Path(p).with_suffix("")\<close>: the last component loses its suffix, the part from
  its last dot on when that dot is neither its first nor its last character; a path
  with an empty name raises \<open>ValueError\<close>.
\<close>

definition path_name :: "string \<Rightarrow> string" where
  "path_name p = rev (takeWhile (\<lambda>c. c \<noteq> CHR ''/'') (rev p))"

definition path_stem :: "string \<Rightarrow> string" where
  "path_stem n =
     (let k = length (takeWhile (\<lambda>c. c \<noteq> CHR ''.'') (rev n)) in
      if CHR ''.'' \<in> set n \<and> 0 < k \<and> Suc k < length n
      then take (length n - Suc k) n else n)"

definition with_suffix_empty :: "string \<Rightarrow> error + string" where
  "with_suffix_empty p =
     (let n = path_name p in
      if n = [] then Inl ValueError
      else Inr (take (length p - length n) p @ path_stem n))"

subsection \<open>Collaborators, events and the state\<close>

text \<open>
  A prompt is kept as its template and arguments: \<open>DesignPrompt fmt c\<close> is
  \<open>PROMPT_TEMPLATE\<close> of the format \<open>fmt\<close> with \<open>context = c\<close> and the format's
  example; \<open>MergePrompt old c\<close> is \<open>MERGE_PROMPT\<close> with \<open>old_design = old\<close> and
  \<open>context = c\<close>. The text of the templates is not modelled.
\<close>

datatype prompt =
    DesignPrompt string pystr
  | MergePrompt pystr pystr

text \<open>The calls the step makes to its collaborators, with their arguments.\<close>

datatype event =
    Aask prompt
  | RenameRoot string
  | Save string pystr "string set"
  | MermaidToFile json string
  | SavePdf document

text \<open>\<open>metagpt.utils.git_repository.ChangeType\<close>.\<close>

datatype ChangeType = ADDED | COPIED | DELETED | RENAMED | MODIFIED | TYPE_CHANGED | UNTRACTED

text \<open>
  The collaborators and the configuration. \<open>aask_v1\<close> is the language model with its
  parser: given the calls made so far and the prompt, it returns the structured output
  or raises. \<open>io_error\<close> says whether a write to the outside (rename, save, render,
  PDF) raises, given the calls made so far. \<open>json_loads\<close> is \<open>json.loads\<close> on a text
  that no serialiser of the model produced, \<open>parse_str\<close> is \<open>CodeParser.parse_str\<close>.
  The five repository paths are the constants of \<open>metagpt.const\<close>.
\<close>

record env =
  aask_v1 :: "event list \<Rightarrow> prompt \<Rightarrow> error + system_design ActionOutput"
  io_error :: "event list \<Rightarrow> event \<Rightarrow> error option"
  json_loads :: "string \<Rightarrow> error + json"
  parse_str :: "string \<Rightarrow> string \<Rightarrow> error + string"
  prompt_format :: string
  WORKDIR :: bool
  workdir_parent :: string
  PRDS_FILE_REPO :: string
  SYSTEM_DESIGN_FILE_REPO :: string
  DATA_API_DESIGN_FILE_REPO :: string
  SEQ_FLOW_FILE_REPO :: string
  SYSTEM_DESIGN_PDF_FILE_REPO :: string

text \<open>
  The state: the files of the two repositories (file name to content), their changed
  files as the version control reports them when \<open>run\<close> starts (a dict: the keys are
  the file names), the name of the root directory of the workspace, and the trace.
\<close>

record state =
  prds :: "string \<rightharpoonup> pystr"
  system_designs :: "string \<rightharpoonup> pystr"
  changed_prds :: "(string \<times> ChangeType) list"
  changed_system_designs :: "(string \<times> ChangeType) list"
  root_name :: string
  trace :: "event list"

type_synonym 'a action = "state \<Rightarrow> (error + 'a) \<times> state"

definition return :: "'a \<Rightarrow> 'a action" where
  "return x s = (Inr x, s)"

definition raise :: "error \<Rightarrow> 'a action" where
  "raise e s = (Inl e, s)"

text \<open>Sequencing: an exception of the first action ends the whole.\<close>

definition and_then :: "'a action \<Rightarrow> ('a \<Rightarrow> 'b action) \<Rightarrow> 'b action" where
  "and_then m f s = (case m s of (Inl e, s') \<Rightarrow> (Inl e, s') | (Inr x, s') \<Rightarrow> f x s')"

definition lift :: "error + 'a \<Rightarrow> 'a action" where
  "lift r s = (r, s)"

text \<open>A call to the outside: logged, and it raises when the collaborator does.\<close>

definition call :: "env \<Rightarrow> event \<Rightarrow> unit action" where
  "call E ev s =
     (case io_error E (trace s) ev of
        None \<Rightarrow> (Inr (), s\<lparr>trace := trace s @ [ev]\<rparr>)
      | Some e \<Rightarrow> (Inl e, s\<lparr>trace := trace s @ [ev]\<rparr>))"

definition aask :: "env \<Rightarrow> prompt \<Rightarrow> system_design ActionOutput action" where
  "aask E p s = (aask_v1 E (trace s) p, s\<lparr>trace := trace s @ [Aask p]\<rparr>)"

text \<open>
  Modelled from the spec: \<open>FileRepository\<close> is not in the sources ("a document
  repository keyed by filename supporting get/save"). \<open>get\<close> returns the document
  stored under the file name, or \<open>None\<close>; \<open>save\<close> stores the content under the file
  name.
\<close>

definition repo_get :: "string \<Rightarrow> (string \<rightharpoonup> pystr) \<Rightarrow> string \<Rightarrow> document option" where
  "repo_get root files f =
     (case files f of
        None \<Rightarrow> None
      | Some c \<Rightarrow> Some \<lparr>root_path = root, filename = f, content = c\<rparr>)"

definition system_design_save :: "env \<Rightarrow> string \<Rightarrow> pystr \<Rightarrow> string set \<Rightarrow> unit action" where
  "system_design_save E f c deps =
     and_then (call E (Save f c deps))
       (\<lambda>_ s. (Inr (), s\<lparr>system_designs := (system_designs s)(f \<mapsto> c)\<rparr>))"

text \<open>\<open>get_template(templates, format)\<close>: the dict \<open>templates\<close> has two keys.\<close>

definition get_template :: "string \<Rightarrow> unit action" where
  "get_template fmt =
     (if fmt = ''json'' \<or> fmt = ''markdown'' then return () else raise ValueError)"

text \<open>\<open>json.loads\<close>.\<close>

definition loads :: "env \<Rightarrow> pystr \<Rightarrow> error + json" where
  "loads E t = (case t of Dumps j \<Rightarrow> Inr j | Plain s \<Rightarrow> json_loads E s)"

text \<open>\<open>m.get(key)\<close> of a value that \<open>json.loads\<close> returned.\<close>

fun dict_get :: "json \<Rightarrow> string \<Rightarrow> error + json" where
  "dict_get (JObj kvs) k = (case map_of kvs k of None \<Rightarrow> Inr JNull | Some v \<Rightarrow> Inr v)"
| "dict_get _ k = Inl AttributeError"

text \<open>Python's truth value of a JSON value.\<close>

fun truthy :: "json \<Rightarrow> bool" where
  "truthy JNull = False"
| "truthy (JBool b) = b"
| "truthy (JInt i) = (i \<noteq> 0)"
| "truthy (JStr (Plain s)) = (s \<noteq> [])"
| "truthy (JStr (Dumps j)) = True"
| "truthy (JArr js) = (js \<noteq> [])"
| "truthy (JObj kvs) = (kvs \<noteq> [])"

subsection \<open>The methods of \<open>WriteDesign\<close>\<close>

text \<open>
  The argument of \<open>_rename_workspace\<close>: an \<open>ActionOutput\<close>, or (the other branch of its
  \<open>isinstance\<close> test) a text.
\<close>

datatype design_arg = Output "system_design ActionOutput" | Raw string

definition rename_workspace :: "env \<Rightarrow> design_arg \<Rightarrow> unit action" where
  "rename_workspace E system_design =
     (if WORKDIR E then return ()
      else and_then
             (case system_design of
                Output out \<Rightarrow> return (Python_package_name (instruct_content out))
              | Raw t \<Rightarrow> lift (parse_str E ''Python package name'' t))
             (\<lambda>ws_name. and_then (call E (RenameRoot ws_name))
                (\<lambda>_ s. (Inr (), s\<lparr>root_name := ws_name\<rparr>))))"

definition fix_output :: "system_design ActionOutput \<Rightarrow> system_design ActionOutput" where
  "fix_output out =
     out\<lparr>instruct_content := (instruct_content out)
           \<lparr>Python_package_name :=
              fix_package_name (Python_package_name (instruct_content out))\<rparr>\<rparr>"

definition new_system_design :: "env \<Rightarrow> pystr \<Rightarrow> system_design ActionOutput action" where
  "new_system_design E ctx =
     and_then (get_template (prompt_format E))
       (\<lambda>_. and_then (aask E (DesignPrompt (prompt_format E) ctx))
          (\<lambda>out. and_then (rename_workspace E (Output (fix_output out)))
             (\<lambda>_. return (fix_output out))))"

definition merge_design :: "env \<Rightarrow> document option \<Rightarrow> document \<Rightarrow> document action" where
  "merge_design E prd_doc system_design_doc =
     (case prd_doc of
        None \<Rightarrow> raise AttributeError
      | Some prd \<Rightarrow>
          and_then (aask E (MergePrompt (content system_design_doc) (content prd)))
            (\<lambda>out. return
               (system_design_doc\<lparr>content := json_of (instruct_content (fix_output out))\<rparr>)))"

definition save_mermaid_file :: "env \<Rightarrow> json \<Rightarrow> string \<Rightarrow> unit action" where
  "save_mermaid_file E data pathname = call E (MermaidToFile data pathname)"

text \<open>
  \<open>CONFIG.git_repo.workdir / Path(repo) / Path(filename).with_suffix("")\<close>: the
  working directory is the root directory of the workspace, under its parent.
\<close>

definition diagram_path :: "env \<Rightarrow> string \<Rightarrow> string \<Rightarrow> string \<Rightarrow> error + string" where
  "diagram_path E root_dir repo f =
     (case with_suffix_empty f of
        Inl e \<Rightarrow> Inl e
      | Inr stem \<Rightarrow>
          Inr (path_join (path_join (path_join (workdir_parent E) root_dir) repo) stem))"

definition save_data_api_design :: "env \<Rightarrow> document \<Rightarrow> unit action" where
  "save_data_api_design E design_doc =
     and_then (lift (loads E (content design_doc)))
       (\<lambda>m. and_then (lift (dict_get m ''Data structures and interface definitions''))
          (\<lambda>data_api_design.
             if \<not> truthy data_api_design then return ()
             else and_then
                    (\<lambda>s. lift (diagram_path E (root_name s) (DATA_API_DESIGN_FILE_REPO E)
                                 (filename design_doc)) s)
                    (\<lambda>pathname. save_mermaid_file E data_api_design pathname)))"

definition save_seq_flow :: "env \<Rightarrow> document \<Rightarrow> unit action" where
  "save_seq_flow E design_doc =
     and_then (lift (loads E (content design_doc)))
       (\<lambda>m. and_then (lift (dict_get m ''Program call flow''))
          (\<lambda>seq_flow.
             if \<not> truthy seq_flow then return ()
             else and_then
                    (\<lambda>s. lift (diagram_path E (root_name s) (SEQ_FLOW_FILE_REPO E)
                                 (filename design_doc)) s)
                    (\<lambda>pathname. save_mermaid_file E seq_flow pathname)))"

definition save_pdf :: "env \<Rightarrow> document \<Rightarrow> unit action" where
  "save_pdf E design_doc = call E (SavePdf design_doc)"

definition update_system_design :: "env \<Rightarrow> string \<Rightarrow> document action" where
  "update_system_design E f s =
     (let prd = repo_get (PRDS_FILE_REPO E) (prds s) f;
          old_system_design_doc = repo_get (SYSTEM_DESIGN_FILE_REPO E) (system_designs s) f
      in and_then
           (case old_system_design_doc of
              None \<Rightarrow>
                (case prd of
                   None \<Rightarrow> raise AttributeError
                 | Some p \<Rightarrow>
                     and_then (new_system_design E (content p))
                       (\<lambda>out. return
                          \<lparr>root_path = SYSTEM_DESIGN_FILE_REPO E, filename = f,
                           content = json_of (instruct_content out)\<rparr>))
            | Some old \<Rightarrow> merge_design E prd old)
           (\<lambda>doc. case prd of
              None \<Rightarrow> raise AttributeError
            | Some p \<Rightarrow>
                and_then (system_design_save E f (content doc) {root_relative_path p})
                  (\<lambda>_. and_then (save_data_api_design E doc)
                     (\<lambda>_. and_then (save_seq_flow E doc)
                        (\<lambda>_. and_then (save_pdf E doc) (\<lambda>_. return doc)))))
           s)"

text \<open>The two loops of \<open>run\<close>, over the keys of the two dicts of changed files.\<close>

fun update_changed_prds :: "env \<Rightarrow> string list \<Rightarrow> documents \<Rightarrow> documents action" where
  "update_changed_prds E [] changed_files = return changed_files"
| "update_changed_prds E (f # fs) changed_files =
     and_then (update_system_design E f)
       (\<lambda>doc. update_changed_prds E fs
          (changed_files\<lparr>docs := AList.update f doc (docs changed_files)\<rparr>))"

fun update_changed_system_designs ::
  "env \<Rightarrow> string list \<Rightarrow> documents \<Rightarrow> documents action" where
  "update_changed_system_designs E [] changed_files = return changed_files"
| "update_changed_system_designs E (f # fs) changed_files =
     (if f \<in> fst ` set (docs changed_files)
      then update_changed_system_designs E fs changed_files
      else and_then (update_system_design E f)
             (\<lambda>doc. update_changed_system_designs E fs
                (changed_files\<lparr>docs := AList.update f doc (docs changed_files)\<rparr>)))"

definition run :: "env \<Rightarrow> documents ActionOutput action" where
  "run E s =
     and_then (update_changed_prds E (map fst (changed_prds s)) \<lparr>docs = []\<rparr>)
       (\<lambda>changed_files.
          and_then
            (update_changed_system_designs E (map fst (changed_system_designs s))
               changed_files)
            (\<lambda>changed_files.
               return \<lparr>output_content = documents_json changed_files,
                       instruct_content = changed_files\<rparr>))
       s"

subsection \<open>Describing a run\<close>

text \<open>The events that a call added to the trace.\<close>

definition new_events :: "state \<Rightarrow> state \<Rightarrow> event list" where
  "new_events s s' = drop (length (trace s)) (trace s')"

text \<open>The file names of the \<open>save\<close> calls among some events, in order.\<close>

fun saved_files :: "event list \<Rightarrow> string list" where
  "saved_files [] = []"
| "saved_files (Save f c deps # evs) = f # saved_files evs"
| "saved_files (ev # evs) = saved_files evs"

text \<open>
  What a collaborator answered to a call, given the calls before it: \<open>None\<close> when it
  returned, the exception when it raised.
\<close>

fun outcome :: "env \<Rightarrow> event list \<Rightarrow> event \<Rightarrow> error option" where
  "outcome E h (Aask p) = (case aask_v1 E h p of Inl e \<Rightarrow> Some e | Inr out \<Rightarrow> None)"
| "outcome E h ev = io_error E h ev"

text \<open>
  \<open>propagated E h evs r\<close>: of the calls \<open>evs\<close> made after the history \<open>h\<close>, one that
  raised is the last call, and its exception is the result \<open>r\<close> of the whole.
\<close>

fun propagated :: "env \<Rightarrow> event list \<Rightarrow> event list \<Rightarrow> error option \<Rightarrow> bool" where
  "propagated E h [] r = True"
| "propagated E h (ev # evs) r =
     (case outcome E h ev of
        None \<Rightarrow> propagated E (h @ [ev]) evs r
      | Some e \<Rightarrow> evs = [] \<and> r = Some e)"

fun raised :: "error + 'a \<Rightarrow> error option" where
  "raised (Inl e) = Some e"
| "raised (Inr x) = None"

definition propagates :: "env \<Rightarrow> 'a action \<Rightarrow> bool" where
  "propagates E A =
     (\<forall>s. prefix (trace s) (trace (snd (A s))) \<and>
          propagated E (trace s) (new_events s (snd (A s))) (raised (fst (A s))))"

text \<open>The prompt that \<open>_update_system_design\<close> sends for a file whose requirement is \<open>c\<close>.\<close>

definition the_prompt :: "env \<Rightarrow> state \<Rightarrow> string \<Rightarrow> pystr \<Rightarrow> prompt" where
  "the_prompt E s f c =
     (case system_designs s f of
        None \<Rightarrow> DesignPrompt (prompt_format E) c
      | Some old \<Rightarrow> MergePrompt old c)"

text \<open>The rename that the new-design branch makes when no work directory is configured.\<close>

definition rename_events :: "env \<Rightarrow> state \<Rightarrow> string \<Rightarrow> string \<Rightarrow> event list" where
  "rename_events E s f n =
     (if system_designs s f = None \<and> \<not> WORKDIR E then [RenameRoot n] else [])"

definition root_after :: "env \<Rightarrow> state \<Rightarrow> string \<Rightarrow> string \<Rightarrow> string" where
  "root_after E s f n =
     (if system_designs s f = None \<and> \<not> WORKDIR E then n else root_name s)"

text \<open>
  The render call for one diagram text of a design of the file \<open>f\<close>: none for an empty
  text.
\<close>

definition diagram_events :: "env \<Rightarrow> string \<Rightarrow> string \<Rightarrow> string \<Rightarrow> string \<Rightarrow> event list" where
  "diagram_events E root_dir repo f data =
     (if data = [] then []
      else case diagram_path E root_dir repo f of
             Inl e \<Rightarrow> []
           | Inr p \<Rightarrow> [MermaidToFile (JStr (Plain data)) p])"

text \<open>
  The document, the calls and the state after \<open>_update_system_design\<close> of the file \<open>f\<close>,
  when the requirement of \<open>f\<close> is \<open>c\<close>, the model answers \<open>out\<close> and nothing raises.
\<close>

definition design_doc :: "env \<Rightarrow> string \<Rightarrow> system_design ActionOutput \<Rightarrow> document" where
  "design_doc E f out =
     \<lparr>root_path = SYSTEM_DESIGN_FILE_REPO E, filename = f,
      content = json_of (instruct_content (fix_output out))\<rparr>"

definition unit_events ::
  "env \<Rightarrow> state \<Rightarrow> string \<Rightarrow> pystr \<Rightarrow> system_design ActionOutput \<Rightarrow> event list" where
  "unit_events E s f c out =
     (let d = instruct_content (fix_output out);
          root_dir = root_after E s f (Python_package_name d)
      in [Aask (the_prompt E s f c)] @
         rename_events E s f (Python_package_name d) @
         [Save f (json_of d) {path_join (PRDS_FILE_REPO E) f}] @
         diagram_events E root_dir (DATA_API_DESIGN_FILE_REPO E) f
           (Data_structures_and_interface_definitions d) @
         diagram_events E root_dir (SEQ_FLOW_FILE_REPO E) f (Program_call_flow d) @
         [SavePdf (design_doc E f out)])"

definition updated ::
  "env \<Rightarrow> state \<Rightarrow> string \<Rightarrow> pystr \<Rightarrow> system_design ActionOutput \<Rightarrow> state" where
  "updated E s f c out =
     s\<lparr>root_name :=
         root_after E s f (Python_package_name (instruct_content (fix_output out))),
       system_designs :=
         (system_designs s)(f \<mapsto> json_of (instruct_content (fix_output out))),
       trace := trace s @ unit_events E s f c out\<rparr>"

text \<open>
  The file names that the second loop of \<open>run\<close> updates: those not yet among the keys
  of the result.
\<close>

fun unseen :: "string set \<Rightarrow> string list \<Rightarrow> string list" where
  "unseen seen [] = []"
| "unseen seen (f # fs) =
     (if f \<in> seen then unseen seen fs else f # unseen (insert f seen) fs)"

definition processed :: "state \<Rightarrow> string list" where
  "processed s =
     map fst (changed_prds s) @
     unseen (set (map fst (changed_prds s))) (map fst (changed_system_designs s))"

text \<open>
  The shape of the calls for one file: the model, at most one rename, the save of the
  design under the file name, the render calls, and the PDF of a document of that name.
\<close>

fun after_save :: "string \<Rightarrow> event list \<Rightarrow> bool" where
  "after_save f [SavePdf d] = (filename d = f)"
| "after_save f (MermaidToFile j p # evs) = after_save f evs"
| "after_save f evs = False"

fun after_aask :: "string \<Rightarrow> event list \<Rightarrow> bool" where
  "after_aask f (RenameRoot n # Save g c deps # evs) = (g = f \<and> after_save f evs)"
| "after_aask f (Save g c deps # evs) = (g = f \<and> after_save f evs)"
| "after_aask f evs = False"

fun unit_of_work :: "string \<Rightarrow> event list \<Rightarrow> bool" where
  "unit_of_work f (Aask p # evs) = after_aask f evs"
| "unit_of_work f evs = False"

text \<open>The keys of a JSON object.\<close>

fun json_keys :: "json \<Rightarrow> string list" where
  "json_keys (JObj kvs) = map fst kvs"
| "json_keys j = []"

text \<open>The prompts of the calls to the model among some events, in order.\<close>

fun prompts :: "event list \<Rightarrow> prompt list" where
  "prompts [] = []"
| "prompts (Aask p # evs) = p # prompts evs"
| "prompts (ev # evs) = prompts evs"

text \<open>The diagram texts rendered among some events, each with its path, in order.\<close>

fun rendered :: "event list \<Rightarrow> (json \<times> string) list" where
  "rendered [] = []"
| "rendered (MermaidToFile j p # evs) = (j, p) # rendered evs"
| "rendered (ev # evs) = rendered evs"

text \<open>The value under "Python package name" of the design stored for a file.\<close>

definition persisted_package_name :: "state \<Rightarrow> string \<Rightarrow> string option" where
  "persisted_package_name s f =
     (case system_designs s f of
        Some (Dumps (JObj kvs)) \<Rightarrow>
          (case map_of kvs ''Python package name'' of
             Some (JStr (Plain n)) \<Rightarrow> Some n
           | _ \<Rightarrow> None)
      | _ \<Rightarrow> None)"

text \<open>
  \<open>quiet s s'\<close>: between the two states some calls were made, none of them a save, and
  the repositories and their changed files are as they were.
\<close>

definition quiet :: "state \<Rightarrow> state \<Rightarrow> bool" where
  "quiet s s' =
     (prds s' = prds s \<and> system_designs s' = system_designs s \<and>
      changed_prds s' = changed_prds s \<and>
      changed_system_designs s' = changed_system_designs s \<and>
      prefix (trace s) (trace s') \<and> saved_files (new_events s s') = [])"

definition keeps_quiet :: "'a action \<Rightarrow> bool" where
  "keeps_quiet A = (\<forall>s. quiet s (snd (A s)))"

text \<open>
  \<open>wrote f s s'\<close>: between the two states at most one save was made, under the file
  name \<open>f\<close>; the designs of the other file names, the requirements and the changed
  files are as they were.
\<close>

definition wrote :: "string \<Rightarrow> state \<Rightarrow> state \<Rightarrow> bool" where
  "wrote f s s' =
     (prds s' = prds s \<and>
      (\<forall>g. g = f \<or> system_designs s' g = system_designs s g) \<and>
      changed_prds s' = changed_prds s \<and>
      changed_system_designs s' = changed_system_designs s \<and>
      prefix (trace s) (trace s') \<and> prefix (saved_files (new_events s s')) [f])"

text \<open>
  What a call may write when the file \<open>f\<close> is updated to the document \<open>doc\<close> in a
  workspace whose root directory ends up as \<open>r\<close>: the design under \<open>f\<close>, the two
  diagrams of \<open>f\<close>, the PDF of the document, and the new name of the root directory.
\<close>

fun written_for :: "env \<Rightarrow> string \<Rightarrow> document \<Rightarrow> string \<Rightarrow> event \<Rightarrow> bool" where
  "written_for E f doc r (Aask p) = True"
| "written_for E f doc r (RenameRoot n) = (n = r)"
| "written_for E f doc r (Save g c deps) = (g = f \<and> c = content doc)"
| "written_for E f doc r (MermaidToFile j p) =
     (diagram_path E r (DATA_API_DESIGN_FILE_REPO E) f = Inr p \<or>
      diagram_path E r (SEQ_FLOW_FILE_REPO E) f = Inr p)"
| "written_for E f doc r (SavePdf d) = (d = doc)"

text \<open>
  \<open>unit_block E f s doc evs\<close>: the calls \<open>evs\<close> are the whole unit of work of the file
  \<open>f\<close> from the state \<open>s\<close>, with the document \<open>doc\<close> as its result. The requirement of
  \<open>f\<close> exists, the model was asked once with the prompt of the branch and answered, and
  the calls are, in order: the model, the rename of the workspace (new branch without a
  configured work directory only), the save of the design under \<open>f\<close>, the render of the
  class diagram unless its text is empty, the render of the sequence diagram unless its
  text is empty, and the PDF of the document.
\<close>

definition unit_block :: "env \<Rightarrow> string \<Rightarrow> state \<Rightarrow> document \<Rightarrow> event list \<Rightarrow> bool" where
  "unit_block E f s doc evs =
     (case prds s f of
        None \<Rightarrow> False
      | Some c \<Rightarrow>
          (case aask_v1 E (trace s) (the_prompt E s f c) of
             Inl e \<Rightarrow> False
           | Inr out \<Rightarrow>
               (let d = instruct_content (fix_output out);
                    root_dir = root_after E s f (Python_package_name d)
                in doc = design_doc E f out \<and>
                   evs =
                     [Aask (the_prompt E s f c)] @
                     rename_events E s f (Python_package_name d) @
                     [Save f (content doc) {path_join (PRDS_FILE_REPO E) f}] @
                     diagram_events E root_dir (DATA_API_DESIGN_FILE_REPO E) f
                       (Data_structures_and_interface_definitions d) @
                     diagram_events E root_dir (SEQ_FLOW_FILE_REPO E) f (Program_call_flow d) @
                     [SavePdf doc] \<and>
                   length (rendered evs) =
                     (if Data_structures_and_interface_definitions d = [] then 0 else 1) +
                     (if Program_call_flow d = [] then 0 else 1))))"

text \<open>
  \<open>unit_blocks E fs blocks s s'\<close>: from the state \<open>s\<close>, \<open>_update_system_design\<close> returns
  for each file name of \<open>fs\<close> in turn, each call starting in the state that the call
  before it left, the last one leaving \<open>s'\<close>; \<open>blocks\<close> holds, for each file name, the
  calls of its update, a whole unit of work.
\<close>

fun unit_blocks :: "env \<Rightarrow> string list \<Rightarrow> event list list \<Rightarrow> state \<Rightarrow> state \<Rightarrow> bool" where
  "unit_blocks E [] blocks s s' = (blocks = [] \<and> s' = s)"
| "unit_blocks E (f # fs) [] s s' = False"
| "unit_blocks E (f # fs) (b # blocks) s s' =
     (case update_system_design E f s of
        (Inl e, s1) \<Rightarrow> False
      | (Inr doc, s1) \<Rightarrow>
          b = new_events s s1 \<and> unit_block E f s doc b \<and> unit_blocks E fs blocks s1 s')"

subsection \<open>Example inputs\<close>

definition example_output :: "system_design ActionOutput" where
  "example_output =
     \<lparr>output_content = Plain ''[CONTENT]...[/CONTENT]'',
      instruct_content =
        \<lparr>Implementation_approach = ''We will ...'',
         Python_package_name = [CHR '' '', CHR 0x22] @ ''snake_game'' @ [CHR 0x22, CHR 0x0A],
         File_list = [''main.py''],
         Data_structures_and_interface_definitions = ''classDiagram'',
         Program_call_flow = ''sequenceDiagram'',
         Anything_UNCLEAR = ''The requirement is clear to me.''\<rparr>\<rparr>"

definition example_env :: env where
  "example_env =
     \<lparr>aask_v1 = (\<lambda>h p. Inr example_output),
      io_error = (\<lambda>h ev. None),
      json_loads = (\<lambda>t. Inl JSONDecodeError),
      parse_str = (\<lambda>b t. Inr t),
      prompt_format = ''json'',
      WORKDIR = False,
      workdir_parent = ''/workspace'',
      PRDS_FILE_REPO = ''docs/prds'',
      SYSTEM_DESIGN_FILE_REPO = ''docs/system_design'',
      DATA_API_DESIGN_FILE_REPO = ''resources/data_api_design'',
      SEQ_FLOW_FILE_REPO = ''resources/seq_flow'',
      SYSTEM_DESIGN_PDF_FILE_REPO = ''resources/system_design''\<rparr>"

text \<open>One requirement without a design, and one with a design that changed.\<close>

definition example_state :: state where
  "example_state =
     \<lparr>prds = [''a.json'' \<mapsto> Plain ''PRD a'', ''b.json'' \<mapsto> Plain ''PRD b''],
      system_designs = [''b.json'' \<mapsto> Plain ''old design b''],
      changed_prds = [(''a.json'', ADDED)],
      changed_system_designs = [(''a.json'', MODIFIED), (''b.json'', MODIFIED)],
      root_name = ''20231127'',
      trace = []\<rparr>"

text \<open>The same state when nothing has changed.\<close>

definition unchanged_state :: state where
  "unchanged_state = example_state\<lparr>changed_prds := [], changed_system_designs := []\<rparr>"

text \<open>A repository whose \<open>save\<close> raises.\<close>

definition failing_env :: env where
  "failing_env =
     example_env\<lparr>io_error :=
       (\<lambda>h ev. case ev of Save f c deps \<Rightarrow> Some (External ''disk full'') | _ \<Rightarrow> None)\<rparr>"

text \<open>A model that leaves the class diagram empty.\<close>

definition no_diagram_output :: "system_design ActionOutput" where
  "no_diagram_output =
     example_output\<lparr>instruct_content :=
       (instruct_content example_output)
         \<lparr>Data_structures_and_interface_definitions := []\<rparr>\<rparr>"

definition no_diagram_env :: env where
  "no_diagram_env = example_env\<lparr>aask_v1 := (\<lambda>h p. Inr no_diagram_output)\<rparr>"

text \<open>A model that wraps the package name in two kinds of quotes.\<close>

definition quoted_output :: "system_design ActionOutput" where
  "quoted_output =
     example_output\<lparr>instruct_content :=
       (instruct_content example_output)
         \<lparr>Python_package_name :=
            [CHR 0x22, CHR 0x27] @ ''snake_game'' @ [CHR 0x27, CHR 0x22]\<rparr>\<rparr>"

definition quoted_env :: env where
  "quoted_env = example_env\<lparr>aask_v1 := (\<lambda>h p. Inr quoted_output)\<rparr>"

section \<open>Lemmas\<close>

subsection \<open>Calls that return\<close>

lemma and_then_ok:
  "and_then m f s = (Inr y, s') \<longleftrightarrow> (\<exists>x s1. m s = (Inr x, s1) \<and> f x s1 = (Inr y, s'))"
  by (auto simp: and_then_def split: prod.splits sum.splits)

lemma and_then_Inr: "m s = (Inr x, s1) \<Longrightarrow> and_then m f s = f x s1"
  by (simp add: and_then_def)

lemma and_then_Inl: "m s = (Inl e, s1) \<Longrightarrow> and_then m f s = (Inl e, s1)"
  by (simp add: and_then_def)

lemma call_ok:
  "call E ev s = (Inr u, s') \<longleftrightarrow>
     io_error E (trace s) ev = None \<and> s' = s\<lparr>trace := trace s @ [ev]\<rparr>"
  by (auto simp: call_def split: option.splits)

lemma aask_ok:
  "aask E p s = (Inr out, s') \<longleftrightarrow>
     aask_v1 E (trace s) p = Inr out \<and> s' = s\<lparr>trace := trace s @ [Aask p]\<rparr>"
  by (auto simp: aask_def)

lemma return_ok: "return x s = (Inr y, s') \<longleftrightarrow> y = x \<and> s' = s"
  by (auto simp: return_def)

lemma raise_ok: "raise e s = (Inr y, s') \<longleftrightarrow> False"
  by (auto simp: raise_def)

lemma lift_ok: "lift r s = (Inr y, s') \<longleftrightarrow> r = Inr y \<and> s' = s"
  by (auto simp: lift_def)

lemmas ok_simps = and_then_ok call_ok aask_ok return_ok raise_ok lift_ok

lemma rename_workspace_ok:
  "rename_workspace E (Output out) s = (Inr u, s') \<longleftrightarrow>
     (if WORKDIR E then s' = s
      else io_error E (trace s) (RenameRoot (Python_package_name (instruct_content out))) = None \<and>
           s' = s\<lparr>root_name := Python_package_name (instruct_content out),
                  trace := trace s @ [RenameRoot (Python_package_name (instruct_content out))]\<rparr>)"
  by (auto simp: rename_workspace_def ok_simps)

lemma loads_json_of: "loads E (json_of d) = Inr (instruct_json d)"
  by (simp add: loads_def json_of_def)

lemma save_data_api_design_ok:
  "content doc = json_of d \<Longrightarrow>
   save_data_api_design E doc s = (Inr u, s') \<longleftrightarrow>
     (if Data_structures_and_interface_definitions d = [] then s' = s
      else \<exists>p. diagram_path E (root_name s) (DATA_API_DESIGN_FILE_REPO E) (filename doc) = Inr p \<and>
           io_error E (trace s)
             (MermaidToFile (JStr (Plain (Data_structures_and_interface_definitions d))) p) = None \<and>
           s' = s\<lparr>trace := trace s @
             [MermaidToFile (JStr (Plain (Data_structures_and_interface_definitions d))) p]\<rparr>)"
  by (auto simp: save_data_api_design_def save_mermaid_file_def ok_simps loads_json_of
      instruct_json_def)

lemma save_seq_flow_ok:
  "content doc = json_of d \<Longrightarrow>
   save_seq_flow E doc s = (Inr u, s') \<longleftrightarrow>
     (if Program_call_flow d = [] then s' = s
      else \<exists>p. diagram_path E (root_name s) (SEQ_FLOW_FILE_REPO E) (filename doc) = Inr p \<and>
           io_error E (trace s) (MermaidToFile (JStr (Plain (Program_call_flow d))) p) = None \<and>
           s' = s\<lparr>trace := trace s @ [MermaidToFile (JStr (Plain (Program_call_flow d))) p]\<rparr>)"
  by (auto simp: save_seq_flow_def save_mermaid_file_def ok_simps loads_json_of instruct_json_def)

lemma save_data_api_design_events:
  assumes "content doc = json_of d" "save_data_api_design E doc s = (Inr u, s')"
  shows "s' = s\<lparr>trace := trace s @ diagram_events E (root_name s) (DATA_API_DESIGN_FILE_REPO E)
            (filename doc) (Data_structures_and_interface_definitions d)\<rparr>"
  using assms(2) unfolding save_data_api_design_ok[OF assms(1)]
  by (auto simp: diagram_events_def split: if_splits)

lemma save_seq_flow_events:
  assumes "content doc = json_of d" "save_seq_flow E doc s = (Inr u, s')"
  shows "s' = s\<lparr>trace := trace s @ diagram_events E (root_name s) (SEQ_FLOW_FILE_REPO E)
            (filename doc) (Program_call_flow d)\<rparr>"
  using assms(2) unfolding save_seq_flow_ok[OF assms(1)]
  by (auto simp: diagram_events_def split: if_splits)

lemma diagram_path_stem:
  "diagram_path E r repo f = Inr p \<Longrightarrow> \<exists>stem. with_suffix_empty f = Inr stem"
  by (auto simp: diagram_path_def split: sum.splits)

lemma save_data_api_design_path:
  assumes "content doc = json_of d" "save_data_api_design E doc s = (Inr u, s')"
  shows "(\<exists>stem. with_suffix_empty (filename doc) = Inr stem) \<or>
         Data_structures_and_interface_definitions d = []"
  using assms(2) unfolding save_data_api_design_ok[OF assms(1)]
  by (auto split: if_splits dest: diagram_path_stem)

lemma save_seq_flow_path:
  assumes "content doc = json_of d" "save_seq_flow E doc s = (Inr u, s')"
  shows "(\<exists>stem. with_suffix_empty (filename doc) = Inr stem) \<or> Program_call_flow d = []"
  using assms(2) unfolding save_seq_flow_ok[OF assms(1)]
  by (auto split: if_splits dest: diagram_path_stem)

lemma new_system_design_ok:
  "new_system_design E c s = (Inr out', s') \<Longrightarrow>
     \<exists>out. aask_v1 E (trace s) (DesignPrompt (prompt_format E) c) = Inr out \<and>
       out' = fix_output out \<and>
       s' = s\<lparr>root_name := (if WORKDIR E then root_name s
                            else Python_package_name (instruct_content out')),
              trace := trace s @ [Aask (DesignPrompt (prompt_format E) c)] @
                 (if WORKDIR E then []
                  else [RenameRoot (Python_package_name (instruct_content out'))])\<rparr>"
  by (auto simp: new_system_design_def get_template_def ok_simps rename_workspace_ok
      split: if_splits)

lemma merge_design_ok:
  "merge_design E prd old s = (Inr doc, s') \<Longrightarrow>
     \<exists>p out. prd = Some p \<and>
       aask_v1 E (trace s) (MergePrompt (content old) (content p)) = Inr out \<and>
       doc = old\<lparr>content := json_of (instruct_content (fix_output out))\<rparr> \<and>
       s' = s\<lparr>trace := trace s @ [Aask (MergePrompt (content old) (content p))]\<rparr>"
  by (auto simp: merge_design_def ok_simps split: option.splits)

lemma persist_ok:
  assumes c: "content d0 = json_of d"
    and run: "and_then (system_design_save E f (content d0) deps)
       (\<lambda>_. and_then (save_data_api_design E d0)
          (\<lambda>_. and_then (save_seq_flow E d0)
             (\<lambda>_. and_then (save_pdf E d0) (\<lambda>_. return d0)))) s = (Inr doc, s')"
  shows "doc = d0 \<and>
     s' = s\<lparr>system_designs := (system_designs s)(f \<mapsto> content d0),
            trace := trace s @ [Save f (content d0) deps] @
              diagram_events E (root_name s) (DATA_API_DESIGN_FILE_REPO E) (filename d0)
                (Data_structures_and_interface_definitions d) @
              diagram_events E (root_name s) (SEQ_FLOW_FILE_REPO E) (filename d0)
                (Program_call_flow d) @
              [SavePdf d0]\<rparr> \<and>
     ((\<exists>stem. with_suffix_empty (filename d0) = Inr stem) \<or>
      (Data_structures_and_interface_definitions d = [] \<and> Program_call_flow d = []))"
proof -
  from run obtain s1 s2 s3 where
    s1: "system_design_save E f (content d0) deps s = (Inr (), s1)" and
    s2: "save_data_api_design E d0 s1 = (Inr (), s2)" and
    s3: "save_seq_flow E d0 s2 = (Inr (), s3)" and
    s4: "save_pdf E d0 s3 = (Inr (), s')" and d: "doc = d0"
    by (auto simp: and_then_ok return_ok)
  from s1 have e1: "s1 = s\<lparr>system_designs := (system_designs s)(f \<mapsto> content d0),
      trace := trace s @ [Save f (content d0) deps]\<rparr>"
    by (auto simp: system_design_save_def ok_simps)
  note e2 = save_data_api_design_events[OF c s2]
  note e3 = save_seq_flow_events[OF c s3]
  from s4 have e4: "s' = s3\<lparr>trace := trace s3 @ [SavePdf d0]\<rparr>"
    by (simp add: save_pdf_def call_ok)
  from save_data_api_design_path[OF c s2] save_seq_flow_path[OF c s3]
  have "(\<exists>stem. with_suffix_empty (filename d0) = Inr stem) \<or>
      (Data_structures_and_interface_definitions d = [] \<and> Program_call_flow d = [])"
    by blast
  then show ?thesis
    by (simp add: d e4 e3 e2 e1)
qed

lemma update_success:
  assumes "update_system_design E f s = (Inr doc, s')"
  shows "\<exists>c out. prds s f = Some c \<and> aask_v1 E (trace s) (the_prompt E s f c) = Inr out \<and>
     doc = design_doc E f out \<and> s' = updated E s f c out \<and>
     ((\<exists>stem. with_suffix_empty f = Inr stem) \<or>
      (Data_structures_and_interface_definitions (instruct_content (fix_output out)) = [] \<and>
       Program_call_flow (instruct_content (fix_output out)) = []))"
proof -
  from assms obtain c where c: "prds s f = Some c"
    by (cases "prds s f"; cases "system_designs s f")
       (auto simp: update_system_design_def Let_def repo_get_def and_then_ok raise_ok
          merge_design_def)
  let ?prd = "\<lparr>root_path = PRDS_FILE_REPO E, filename = f, content = c\<rparr>"
  show ?thesis
  proof (cases "system_designs s f")
    case None
    from assms c None obtain out' s1 d0 where
      n: "new_system_design E c s = (Inr out', s1)" and
      d0: "d0 = \<lparr>root_path = SYSTEM_DESIGN_FILE_REPO E, filename = f,
             content = json_of (instruct_content out')\<rparr>" and
      p: "and_then (system_design_save E f (content d0) {root_relative_path ?prd})
       (\<lambda>_. and_then (save_data_api_design E d0)
          (\<lambda>_. and_then (save_seq_flow E d0)
             (\<lambda>_. and_then (save_pdf E d0) (\<lambda>_. return d0)))) s1 = (Inr doc, s')"
      by (auto simp: update_system_design_def Let_def repo_get_def and_then_ok[of _ _ s]
          return_ok)
    from new_system_design_ok[OF n] obtain out where
      a: "aask_v1 E (trace s) (DesignPrompt (prompt_format E) c) = Inr out" and
      o: "out' = fix_output out" and
      s1: "s1 = s\<lparr>root_name := (if WORKDIR E then root_name s
                                 else Python_package_name (instruct_content out')),
              trace := trace s @ [Aask (DesignPrompt (prompt_format E) c)] @
                 (if WORKDIR E then []
                  else [RenameRoot (Python_package_name (instruct_content out'))])\<rparr>"
      by blast
    have cd: "content d0 = json_of (instruct_content out')" by (simp add: d0)
    from persist_ok[OF cd p] a c show ?thesis
      by (auto simp: s1 o d0 None the_prompt_def rename_events_def root_relative_path_def
          design_doc_def updated_def unit_events_def root_after_def Let_def
          intro!: exI[of _ out])
  next
    case (Some old)
    let ?old = "\<lparr>root_path = SYSTEM_DESIGN_FILE_REPO E, filename = f, content = old\<rparr>"
    from assms c Some obtain s1 d0 where
      m: "merge_design E (Some ?prd) ?old s = (Inr d0, s1)" and
      p: "and_then (system_design_save E f (content d0) {root_relative_path ?prd})
       (\<lambda>_. and_then (save_data_api_design E d0)
          (\<lambda>_. and_then (save_seq_flow E d0)
             (\<lambda>_. and_then (save_pdf E d0) (\<lambda>_. return d0)))) s1 = (Inr doc, s')"
      by (auto simp: update_system_design_def Let_def repo_get_def and_then_ok[of _ _ s]
          return_ok)
    from merge_design_ok[OF m] obtain out where
      a: "aask_v1 E (trace s) (MergePrompt old c) = Inr out" and
      d0: "d0 = ?old\<lparr>content := json_of (instruct_content (fix_output out))\<rparr>" and
      s1: "s1 = s\<lparr>trace := trace s @ [Aask (MergePrompt old c)]\<rparr>"
      by auto
    have cd: "content d0 = json_of (instruct_content (fix_output out))" by (simp add: d0)
    from persist_ok[OF cd p] a c show ?thesis
      by (auto simp: s1 d0 Some the_prompt_def rename_events_def root_relative_path_def
          design_doc_def updated_def unit_events_def root_after_def Let_def
          intro!: exI[of _ out])
  qed
qed

subsection \<open>A run in which nothing raises\<close>

lemma update_system_design_runs:
  assumes c: "prds s f = Some c"
    and fmt: "prompt_format E = ''json'' \<or> prompt_format E = ''markdown''"
    and a: "aask_v1 E (trace s) (the_prompt E s f c) = Inr out"
    and io: "\<And>h ev. io_error E h ev = None"
    and st: "with_suffix_empty f = Inr stem"
  shows "update_system_design E f s = (Inr (design_doc E f out), updated E s f c out)"
proof -
  let ?d = "instruct_content (fix_output out)"
  let ?doc = "design_doc E f out"
  have cd: "content ?doc = json_of ?d" "filename ?doc = f"
    by (simp_all add: design_doc_def)
  have data: "\<And>s. save_data_api_design E ?doc s =
      (Inr (), s\<lparr>trace := trace s @ diagram_events E (root_name s) (DATA_API_DESIGN_FILE_REPO E) f
         (Data_structures_and_interface_definitions ?d)\<rparr>)"
    by (simp add: save_data_api_design_def cd loads_json_of instruct_json_def and_then_def
        lift_def return_def diagram_path_def st save_mermaid_file_def call_def io
        diagram_events_def)
  have seq: "\<And>s. save_seq_flow E ?doc s =
      (Inr (), s\<lparr>trace := trace s @ diagram_events E (root_name s) (SEQ_FLOW_FILE_REPO E) f
         (Program_call_flow ?d)\<rparr>)"
    by (simp add: save_seq_flow_def cd loads_json_of instruct_json_def and_then_def
        lift_def return_def diagram_path_def st save_mermaid_file_def call_def io
        diagram_events_def)
  have persist: "\<And>s deps. and_then (system_design_save E f (content ?doc) deps)
       (\<lambda>_. and_then (save_data_api_design E ?doc)
          (\<lambda>_. and_then (save_seq_flow E ?doc)
             (\<lambda>_. and_then (save_pdf E ?doc) (\<lambda>_. return ?doc)))) s =
      (Inr ?doc, s\<lparr>system_designs := (system_designs s)(f \<mapsto> json_of ?d),
            trace := trace s @ [Save f (json_of ?d) deps] @
              diagram_events E (root_name s) (DATA_API_DESIGN_FILE_REPO E) f
                (Data_structures_and_interface_definitions ?d) @
              diagram_events E (root_name s) (SEQ_FLOW_FILE_REPO E) f (Program_call_flow ?d) @
              [SavePdf ?doc]\<rparr>)"
    by (simp add: and_then_def system_design_save_def call_def io data seq save_pdf_def
        return_def cd)
  show ?thesis
  proof (cases "system_designs s f")
    case None
    have n: "new_system_design E c s =
        (Inr (fix_output out),
         s\<lparr>root_name := root_after E s f (Python_package_name ?d),
           trace := trace s @ [Aask (the_prompt E s f c)] @
             rename_events E s f (Python_package_name ?d)\<rparr>)"
      using a fmt None
      by (auto simp: new_system_design_def get_template_def and_then_def return_def aask_def
          rename_workspace_def call_def io the_prompt_def root_after_def rename_events_def)
    show ?thesis
      unfolding update_system_design_def Let_def repo_get_def c None
      apply (simp add: and_then_def[of "new_system_design E c"]
          and_then_def[of "and_then (new_system_design E c) _"] n return_def)
      apply (simp add: persist[unfolded design_doc_def, simplified] design_doc_def
          root_relative_path_def updated_def unit_events_def Let_def)
      done
  next
    case (Some old)
    have m: "merge_design E (Some \<lparr>root_path = PRDS_FILE_REPO E, filename = f, content = c\<rparr>)
         \<lparr>root_path = SYSTEM_DESIGN_FILE_REPO E, filename = f, content = old\<rparr> s =
        (Inr ?doc, s\<lparr>trace := trace s @ [Aask (the_prompt E s f c)]\<rparr>)"
      using a Some
      by (simp add: merge_design_def and_then_def aask_def return_def the_prompt_def
          design_doc_def)
    show ?thesis
      unfolding update_system_design_def Let_def repo_get_def c Some
      apply (simp add: and_then_def[of "merge_design E _ _"] m)
      apply (simp add: persist root_relative_path_def updated_def
          unit_events_def Let_def root_after_def rename_events_def Some)
      done
  qed
qed

subsection \<open>Reading a trace\<close>

lemma plain_strs_map [simp]: "plain_strs (map (\<lambda>f. JStr (Plain f)) xs) = Some xs"
  by (induction xs) simp_all

lemma parse_design_instruct_json: "parse_design (instruct_json d) = Some d"
  by (simp add: instruct_json_def OUTPUT_MAPPING_def)

lemma json_keys_instruct_json: "json_keys (instruct_json d) = OUTPUT_MAPPING"
  by (simp add: instruct_json_def OUTPUT_MAPPING_def)

lemma prompts_append [simp]: "prompts (xs @ ys) = prompts xs @ prompts ys"
  by (induction xs rule: prompts.induct) simp_all

lemma saved_files_append [simp]: "saved_files (xs @ ys) = saved_files xs @ saved_files ys"
  by (induction xs rule: saved_files.induct) simp_all

lemma rendered_append [simp]: "rendered (xs @ ys) = rendered xs @ rendered ys"
  by (induction xs rule: rendered.induct) simp_all

lemma diagram_events_simps [simp]:
  "prompts (diagram_events E r repo f data) = []"
  "saved_files (diagram_events E r repo f data) = []"
  by (simp_all add: diagram_events_def split: sum.splits)

lemma rename_events_simps [simp]:
  "prompts (rename_events E s f n) = []"
  "saved_files (rename_events E s f n) = []"
  "rendered (rename_events E s f n) = []"
  by (simp_all add: rename_events_def)

lemma unit_events_simps [simp]:
  "prompts (unit_events E s f c out) = [the_prompt E s f c]"
  "saved_files (unit_events E s f c out) = [f]"
  by (simp_all add: unit_events_def Let_def)

lemma new_events_updated [simp]:
  "new_events s (updated E s f c out) = unit_events E s f c out"
  by (simp add: new_events_def updated_def)

lemma strip_chars_ends:
  "strip_chars P s = [] \<or> (\<not> P (hd (strip_chars P s)) \<and> \<not> P (last (strip_chars P s)))"
proof (cases "strip_chars P s = []")
  case True
  then show ?thesis by simp
next
  case False
  let ?ys = "dropWhile P s"
  let ?r = "dropWhile P (rev ?ys)"
  have r: "strip_chars P s = rev ?r" by (simp add: strip_chars_def)
  with False have ne: "?r \<noteq> []" by simp
  then have "\<not> P (hd ?r)" by (rule hd_dropWhile)
  then have l: "\<not> P (last (strip_chars P s))"
    using ne by (simp add: r last_rev)
  have "rev ?ys = takeWhile P (rev ?ys) @ ?r" by simp
  then have "?ys = rev ?r @ rev (takeWhile P (rev ?ys))"
    by (metis rev_append rev_rev_ident)
  then have "hd ?ys = hd (rev ?r)" using ne by (metis hd_append2 rev_is_Nil_conv)
  moreover have "?ys \<noteq> []"
  proof
    assume a: "?ys = []"
    have "?r = []" unfolding a by simp
    with ne show False by (simp only:)
  qed
  then have "\<not> P (hd ?ys)" by (rule hd_dropWhile)
  ultimately have "\<not> P (hd (strip_chars P s))" by (simp add: r)
  with l show ?thesis by simp
qed

lemma persisted_package_name_updated [simp]:
  "persisted_package_name (updated E s f c out) f =
     Some (fix_package_name (Python_package_name (instruct_content out)))"
  by (simp add: persisted_package_name_def updated_def json_of_def instruct_json_def
      fix_output_def)

subsection \<open>Exceptions are not caught\<close>

lemma propagated_append:
  "propagated E h evs1 None \<Longrightarrow> propagated E (h @ evs1) evs2 r \<Longrightarrow>
   propagated E h (evs1 @ evs2) r"
  by (induction evs1 arbitrary: h) (auto split: option.splits)

lemma propagatesI:
  assumes "\<And>s r s'. A s = (r, s') \<Longrightarrow>
     \<exists>evs. trace s' = trace s @ evs \<and> propagated E (trace s) evs (raised r)"
  shows "propagates E A"
  unfolding propagates_def new_events_def
proof (intro allI)
  fix s
  obtain r s' where a: "A s = (r, s')" by (cases "A s")
  from assms[OF a] obtain evs where "trace s' = trace s @ evs"
    "propagated E (trace s) evs (raised r)" by blast
  then show "prefix (trace s) (trace (snd (A s))) \<and>
     propagated E (trace s) (drop (length (trace s)) (trace (snd (A s)))) (raised (fst (A s)))"
    by (simp add: a)
qed

lemma propagatesD:
  assumes "propagates E A" "A s = (r, s')"
  shows "\<exists>evs. trace s' = trace s @ evs \<and> propagated E (trace s) evs (raised r)"
proof -
  from assms have p: "prefix (trace s) (trace s')"
    and q: "propagated E (trace s) (drop (length (trace s)) (trace s')) (raised r)"
    by (auto simp: propagates_def new_events_def dest: spec[of _ s])
  from p obtain evs where "trace s' = trace s @ evs" by (auto simp: prefix_def)
  with q show ?thesis by auto
qed

lemma propagates_and_then:
  assumes m: "propagates E m" and f: "\<And>x. propagates E (f x)"
  shows "propagates E (and_then m f)"
proof (rule propagatesI)
  fix s r s'
  assume a: "and_then m f s = (r, s')"
  obtain r1 s1 where m1: "m s = (r1, s1)" by (cases "m s")
  from propagatesD[OF m m1] obtain evs1 where
    t1: "trace s1 = trace s @ evs1" and p1: "propagated E (trace s) evs1 (raised r1)" by blast
  show "\<exists>evs. trace s' = trace s @ evs \<and> propagated E (trace s) evs (raised r)"
  proof (cases r1)
    case (Inl e)
    with a m1 have "r = Inl e" "s' = s1" by (auto simp: and_then_def)
    with t1 p1 Inl show ?thesis by auto
  next
    case (Inr x)
    with a m1 have fx: "f x s1 = (r, s')" by (auto simp: and_then_def)
    from propagatesD[OF f fx] obtain evs2 where
      t2: "trace s' = trace s1 @ evs2" and p2: "propagated E (trace s1) evs2 (raised r)" by blast
    from p1 Inr have "propagated E (trace s) evs1 None" by simp
    from propagated_append[OF this] p2 t1 have "propagated E (trace s) (evs1 @ evs2) (raised r)"
      by simp
    with t1 t2 show ?thesis by auto
  qed
qed

lemma propagates_pure:
  assumes "\<And>s. trace (snd (A s)) = trace s"
  shows "propagates E A"
  by (rule propagatesI) (use assms in \<open>auto dest: arg_cong[where f="\<lambda>p. trace (snd p)"]\<close>)

lemma propagates_return [intro!, simp]: "propagates E (return x)"
  by (rule propagates_pure) (simp add: return_def)

lemma propagates_raise [intro!, simp]: "propagates E (raise e)"
  by (rule propagates_pure) (simp add: raise_def)

lemma propagates_lift [intro!, simp]: "propagates E (lift r)"
  by (rule propagates_pure) (simp add: lift_def)

lemma propagates_call [intro!, simp]:
  "propagates E (call E (RenameRoot n))"
  "propagates E (call E (Save f c deps))"
  "propagates E (call E (MermaidToFile j p))"
  "propagates E (call E (SavePdf d))"
  by (rule propagatesI; auto simp: call_def split: option.splits)+

lemma propagates_aask [intro!, simp]: "propagates E (aask E p)"
  by (rule propagatesI) (auto simp: aask_def split: sum.splits)

lemma propagates_set_root [intro!, simp]:
  "propagates E (\<lambda>s. (Inr x, s\<lparr>root_name := w\<rparr>))"
  by (rule propagates_pure) simp

lemma propagates_set_designs [intro!, simp]:
  "propagates E (\<lambda>s. (Inr x, s\<lparr>system_designs := g s\<rparr>))"
  by (rule propagates_pure) simp

lemma propagates_lift_state [intro!, simp]: "propagates E (\<lambda>s. lift (g s) s)"
  by (rule propagates_pure) (simp add: lift_def)

lemma propagates_rename_workspace: "propagates E (rename_workspace E a)"
  unfolding rename_workspace_def
  by (auto intro!: propagates_and_then split: design_arg.splits)

lemma propagates_new_system_design: "propagates E (new_system_design E c)"
  unfolding new_system_design_def get_template_def
  by (auto intro!: propagates_and_then propagates_rename_workspace)

lemma propagates_merge_design: "propagates E (merge_design E prd old)"
  unfolding merge_design_def
  by (auto intro!: propagates_and_then split: option.splits)

lemma propagates_save_data_api_design: "propagates E (save_data_api_design E d)"
  unfolding save_data_api_design_def save_mermaid_file_def
  by (auto intro!: propagates_and_then)

lemma propagates_save_seq_flow: "propagates E (save_seq_flow E d)"
  unfolding save_seq_flow_def save_mermaid_file_def
  by (auto intro!: propagates_and_then)

lemma propagates_system_design_save: "propagates E (system_design_save E f c deps)"
  unfolding system_design_save_def
  by (auto intro!: propagates_and_then)

lemma propagates_update_system_design: "propagates E (update_system_design E f)"
proof -
  have "propagates E (\<lambda>s. update_system_design E f s)"
    unfolding update_system_design_def Let_def
    apply (rule propagatesI)
    subgoal for s r s'
      apply (rule propagatesD[where A="and_then _ _" and s=s])
       apply (auto intro!: propagates_and_then propagates_new_system_design
          propagates_merge_design propagates_system_design_save propagates_save_data_api_design
          propagates_save_seq_flow simp: save_pdf_def split: option.splits)
      done
    done
  then show ?thesis by simp
qed

lemma propagates_update_changed_prds: "propagates E (update_changed_prds E fs cf)"
  by (induction fs arbitrary: cf)
     (auto intro!: propagates_and_then propagates_update_system_design)

lemma propagates_update_changed_system_designs:
  "propagates E (update_changed_system_designs E fs cf)"
  by (induction fs arbitrary: cf)
     (auto intro!: propagates_and_then propagates_update_system_design)

lemma propagates_run: "propagates E (run E)"
proof (rule propagatesI)
  fix s r s'
  assume "run E s = (r, s')"
  then show "\<exists>evs. trace s' = trace s @ evs \<and> propagated E (trace s) evs (raised r)"
    unfolding run_def
    by (rule propagatesD[rotated])
       (auto intro!: propagates_and_then propagates_update_changed_prds
          propagates_update_changed_system_designs)
qed

subsection \<open>The example inputs, evaluated\<close>

lemma example_io [simp]: "io_error example_env h ev = None"
  by (simp add: example_env_def)

lemma with_suffix_json [simp]:
  "with_suffix_empty ''a.json'' = Inr ''a''" "with_suffix_empty ''b.json'' = Inr ''b''"
  by (simp_all add: with_suffix_empty_def path_name_def path_stem_def)

lemma updated_simps [simp]:
  "prds (updated E s f c out) = prds s"
  "changed_prds (updated E s f c out) = changed_prds s"
  "changed_system_designs (updated E s f c out) = changed_system_designs s"
  "system_designs (updated E s f c out) =
     (system_designs s)(f \<mapsto> json_of (instruct_content (fix_output out)))"
  "trace (updated E s f c out) = trace s @ unit_events E s f c out"
  "root_name (updated E s f c out) =
     root_after E s f (Python_package_name (instruct_content (fix_output out)))"
  by (simp_all add: updated_def)

lemma example_update_a:
  "update_system_design example_env ''a.json'' example_state =
     (Inr (design_doc example_env ''a.json'' example_output),
      updated example_env example_state ''a.json'' (Plain ''PRD a'') example_output)"
  by (rule update_system_design_runs[where stem="''a''"])
     (simp_all add: example_env_def example_state_def)

lemma example_update_b:
  "update_system_design example_env ''b.json''
     (updated example_env example_state ''a.json'' (Plain ''PRD a'') example_output) =
     (Inr (design_doc example_env ''b.json'' example_output),
      updated example_env
        (updated example_env example_state ''a.json'' (Plain ''PRD a'') example_output)
        ''b.json'' (Plain ''PRD b'') example_output)"
  by (rule update_system_design_runs[where stem="''b''"])
     (simp_all add: example_env_def example_state_def)

lemma example_run:
  "run example_env example_state =
     (Inr \<lparr>output_content = documents_json
             \<lparr>docs = [(''a.json'', design_doc example_env ''a.json'' example_output),
                      (''b.json'', design_doc example_env ''b.json'' example_output)]\<rparr>,
           instruct_content =
             \<lparr>docs = [(''a.json'', design_doc example_env ''a.json'' example_output),
                      (''b.json'', design_doc example_env ''b.json'' example_output)]\<rparr>\<rparr>,
      updated example_env
        (updated example_env example_state ''a.json'' (Plain ''PRD a'') example_output)
        ''b.json'' (Plain ''PRD b'') example_output)"
proof -
  have cp: "map fst (changed_prds example_state) = [''a.json'']"
    and cs: "map fst (changed_system_designs example_state) = [''a.json'', ''b.json'']"
    by (simp_all add: example_state_def)
  show ?thesis
    unfolding run_def cp cs
    by (simp add: and_then_def example_update_a example_update_b return_def)
qed

lemma failing_update:
  "update_system_design failing_env ''a.json'' example_state =
     (Inl (External ''disk full''),
      example_state\<lparr>root_name := ''snake_game'',
        trace := [Aask (DesignPrompt ''json'' (Plain ''PRD a'')), RenameRoot ''snake_game'',
                  Save ''a.json'' (json_of (instruct_content (fix_output example_output)))
                    {''docs/prds/a.json''}]\<rparr>)"
proof -
  have n: "fix_package_name (Python_package_name (instruct_content example_output)) = ''snake_game''"
    by (simp add: fix_package_name_def strip_def strip_chars_def isspace_def single_quote_def
        double_quote_def example_output_def)
  have new: "new_system_design failing_env (Plain ''PRD a'') example_state =
      (Inr (fix_output example_output),
       example_state\<lparr>root_name := ''snake_game'',
         trace := [Aask (DesignPrompt ''json'' (Plain ''PRD a'')), RenameRoot ''snake_game'']\<rparr>)"
    by (simp add: new_system_design_def get_template_def rename_workspace_def and_then_def
        return_def aask_def call_def fix_output_def failing_env_def example_env_def n
        example_state_def)
  have p: "repo_get (PRDS_FILE_REPO failing_env) (prds example_state) ''a.json'' =
      Some \<lparr>root_path = ''docs/prds'', filename = ''a.json'', content = Plain ''PRD a''\<rparr>"
    by (simp add: repo_get_def example_state_def failing_env_def example_env_def)
  have o: "repo_get (SYSTEM_DESIGN_FILE_REPO failing_env) (system_designs example_state)
      ''a.json'' = None"
    by (simp add: repo_get_def example_state_def)
  have io: "\<And>h c deps. io_error failing_env h (Save ''a.json'' c deps) =
      Some (External ''disk full'')"
    by (simp add: failing_env_def)
  show ?thesis
    unfolding update_system_design_def Let_def p o
    by (simp add: and_then_def new return_def system_design_save_def call_def io
        root_relative_path_def path_join_def)
qed

lemma failing_run:
  "run failing_env example_state =
     (Inl (External ''disk full''),
      example_state\<lparr>root_name := ''snake_game'',
        trace := [Aask (DesignPrompt ''json'' (Plain ''PRD a'')), RenameRoot ''snake_game'',
                  Save ''a.json'' (json_of (instruct_content (fix_output example_output)))
                    {''docs/prds/a.json''}]\<rparr>)"
proof -
  have cp: "map fst (changed_prds example_state) = [''a.json'']"
    by (simp add: example_state_def)
  show ?thesis
    unfolding run_def cp
    by (simp add: and_then_def failing_update)
qed

lemma no_diagram_env_simps [simp]:
  "io_error no_diagram_env h ev = None"
  "aask_v1 no_diagram_env h p = Inr no_diagram_output"
  "prompt_format no_diagram_env = ''json''"
  by (simp_all add: no_diagram_env_def example_env_def)

lemma no_diagram_update_a:
  "update_system_design no_diagram_env ''a.json'' example_state =
     (Inr (design_doc no_diagram_env ''a.json'' no_diagram_output),
      updated no_diagram_env example_state ''a.json'' (Plain ''PRD a'') no_diagram_output)"
  by (rule update_system_design_runs[where stem="''a''"])
     (simp_all, simp add: example_state_def)

lemma no_diagram_update_b:
  "update_system_design no_diagram_env ''b.json''
     (updated no_diagram_env example_state ''a.json'' (Plain ''PRD a'') no_diagram_output) =
     (Inr (design_doc no_diagram_env ''b.json'' no_diagram_output),
      updated no_diagram_env
        (updated no_diagram_env example_state ''a.json'' (Plain ''PRD a'') no_diagram_output)
        ''b.json'' (Plain ''PRD b'') no_diagram_output)"
  by (rule update_system_design_runs[where stem="''b''"])
     (simp_all, simp add: example_state_def)

lemma no_diagram_run:
  "run no_diagram_env example_state =
     (Inr \<lparr>output_content = documents_json
             \<lparr>docs = [(''a.json'', design_doc no_diagram_env ''a.json'' no_diagram_output),
                      (''b.json'', design_doc no_diagram_env ''b.json'' no_diagram_output)]\<rparr>,
           instruct_content =
             \<lparr>docs = [(''a.json'', design_doc no_diagram_env ''a.json'' no_diagram_output),
                      (''b.json'', design_doc no_diagram_env ''b.json'' no_diagram_output)]\<rparr>\<rparr>,
      updated no_diagram_env
        (updated no_diagram_env example_state ''a.json'' (Plain ''PRD a'') no_diagram_output)
        ''b.json'' (Plain ''PRD b'') no_diagram_output)"
proof -
  have cp: "map fst (changed_prds example_state) = [''a.json'']"
    and cs: "map fst (changed_system_designs example_state) = [''a.json'', ''b.json'']"
    by (simp_all add: example_state_def)
  show ?thesis
    unfolding run_def cp cs
    by (simp add: and_then_def no_diagram_update_a no_diagram_update_b return_def)
qed

lemma fix_example_name:
  "fix_package_name (Python_package_name (instruct_content example_output)) = ''snake_game''"
  by (simp add: fix_package_name_def strip_def strip_chars_def isspace_def single_quote_def
      double_quote_def example_output_def)

lemma no_diagram_fields:
  "Data_structures_and_interface_definitions (instruct_content (fix_output no_diagram_output)) = []"
  "Program_call_flow (instruct_content (fix_output no_diagram_output)) = ''sequenceDiagram''"
  "Python_package_name (instruct_content (fix_output no_diagram_output)) = ''snake_game''"
  by (simp_all add: fix_output_def no_diagram_output_def fix_example_name)
     (simp add: example_output_def)

lemma rendered_diagram_events [simp]:
  "rendered (diagram_events E r repo f data) =
     (if data = [] then []
      else case diagram_path E r repo f of
             Inl e \<Rightarrow> []
           | Inr p \<Rightarrow> [(JStr (Plain data), p)])"
  by (simp add: diagram_events_def split: sum.splits)

lemma rendered_unit_events:
  "rendered (unit_events E s f c out) =
     rendered (diagram_events E
        (root_after E s f (Python_package_name (instruct_content (fix_output out))))
        (DATA_API_DESIGN_FILE_REPO E) f
        (Data_structures_and_interface_definitions (instruct_content (fix_output out)))) @
     rendered (diagram_events E
        (root_after E s f (Python_package_name (instruct_content (fix_output out))))
        (SEQ_FLOW_FILE_REPO E) f (Program_call_flow (instruct_content (fix_output out))))"
  by (simp add: unit_events_def Let_def del: rendered_diagram_events)

lemma quoted_env_simps [simp]:
  "io_error quoted_env h ev = None"
  "aask_v1 quoted_env h p = Inr quoted_output"
  "prompt_format quoted_env = ''json''"
  by (simp_all add: quoted_env_def example_env_def)

lemma quoted_update_a:
  "update_system_design quoted_env ''a.json'' example_state =
     (Inr (design_doc quoted_env ''a.json'' quoted_output),
      updated quoted_env example_state ''a.json'' (Plain ''PRD a'') quoted_output)"
  by (rule update_system_design_runs[where stem="''a''"])
     (simp_all, simp add: example_state_def)

lemma fix_quoted_name:
  "fix_package_name (Python_package_name (instruct_content quoted_output)) =
     CHR 0x27 # ''snake_game'' @ [CHR 0x27]"
  by (simp add: fix_package_name_def strip_def strip_chars_def isspace_def single_quote_def
      double_quote_def quoted_output_def)

subsection \<open>What one update may change\<close>

lemma and_then_InrD:
  "and_then m f s = (r, s') \<Longrightarrow> m s = (Inr x, s1) \<Longrightarrow> f x s1 = (r, s')"
  by (simp add: and_then_def)

lemma and_then_InlD:
  "and_then m f s = (r, s') \<Longrightarrow> m s = (Inl e, s1) \<Longrightarrow> r = Inl e \<and> s' = s1"
  by (auto simp: and_then_def)

lemma new_events_refl [simp]: "new_events s s = []"
  by (simp add: new_events_def)

lemma new_events_trans:
  assumes "prefix (trace s) (trace s1)" "prefix (trace s1) (trace s2)"
  shows "new_events s s2 = new_events s s1 @ new_events s1 s2"
proof -
  from assms obtain a b where "trace s1 = trace s @ a" "trace s2 = trace s1 @ b"
    by (auto simp: prefix_def)
  then show ?thesis by (simp add: new_events_def)
qed

lemma quiet_refl [simp]: "quiet s s"
  by (simp add: quiet_def)

lemma quiet_trans:
  assumes "quiet s s1" "quiet s1 s2"
  shows "quiet s s2"
proof -
  from assms have p1: "prefix (trace s) (trace s1)" and p2: "prefix (trace s1) (trace s2)"
    by (simp_all add: quiet_def)
  from p1 p2 have "prefix (trace s) (trace s2)" by (rule prefix_order.trans)
  with assms show ?thesis
    by (simp add: quiet_def new_events_trans[OF p1 p2])
qed

lemma keeps_quietI: "(\<And>s. quiet s (snd (A s))) \<Longrightarrow> keeps_quiet A"
  by (simp add: keeps_quiet_def)

lemma keeps_quietD: "keeps_quiet A \<Longrightarrow> A s = (r, s') \<Longrightarrow> quiet s s'"
  by (auto simp: keeps_quiet_def dest: spec[of _ s])

lemma keeps_quiet_and_then:
  assumes m: "keeps_quiet m" and f: "\<And>x. keeps_quiet (f x)"
  shows "keeps_quiet (and_then m f)"
proof (rule keeps_quietI)
  fix s
  obtain r1 s1 where m1: "m s = (r1, s1)" by (cases "m s")
  note q1 = keeps_quietD[OF m m1]
  show "quiet s (snd (and_then m f s))"
  proof (cases r1)
    case (Inl e)
    with m1 q1 show ?thesis by (simp add: and_then_def)
  next
    case (Inr x)
    obtain r2 s2 where f2: "f x s1 = (r2, s2)" by (cases "f x s1")
    from keeps_quietD[OF f f2] q1 have "quiet s s2" by (blast intro: quiet_trans)
    with m1 Inr f2 show ?thesis by (simp add: and_then_def)
  qed
qed

lemma keeps_quiet_base [intro!, simp]:
  "keeps_quiet (return x)"
  "keeps_quiet (raise e)"
  "keeps_quiet (lift r)"
  "keeps_quiet (\<lambda>s. lift (g s) s)"
  "keeps_quiet (\<lambda>s. (Inr y, s\<lparr>root_name := w\<rparr>))"
  "keeps_quiet (aask E p)"
  "keeps_quiet (call E (RenameRoot n))"
  "keeps_quiet (call E (MermaidToFile j q))"
  "keeps_quiet (call E (SavePdf d))"
  by (rule keeps_quietI;
      simp add: return_def raise_def lift_def aask_def call_def quiet_def new_events_def
        split: option.splits)+

lemma keeps_quiet_rename_workspace: "keeps_quiet (rename_workspace E a)"
  unfolding rename_workspace_def
  by (auto intro!: keeps_quiet_and_then split: design_arg.splits)

lemma keeps_quiet_new_system_design: "keeps_quiet (new_system_design E c)"
  unfolding new_system_design_def get_template_def
  by (auto intro!: keeps_quiet_and_then keeps_quiet_rename_workspace)

lemma keeps_quiet_merge_design: "keeps_quiet (merge_design E prd old)"
  unfolding merge_design_def
  by (auto intro!: keeps_quiet_and_then split: option.splits)

lemma keeps_quiet_save_data_api_design: "keeps_quiet (save_data_api_design E d)"
  unfolding save_data_api_design_def save_mermaid_file_def
  by (auto intro!: keeps_quiet_and_then)

lemma keeps_quiet_save_seq_flow: "keeps_quiet (save_seq_flow E d)"
  unfolding save_seq_flow_def save_mermaid_file_def
  by (auto intro!: keeps_quiet_and_then)

lemma keeps_quiet_rest:
  "keeps_quiet (and_then (save_data_api_design E d)
     (\<lambda>_. and_then (save_seq_flow E d) (\<lambda>_. and_then (save_pdf E d) (\<lambda>_. return d))))"
  by (auto intro!: keeps_quiet_and_then keeps_quiet_save_data_api_design
      keeps_quiet_save_seq_flow simp: save_pdf_def)

lemma quiet_wrote: "quiet s s' \<Longrightarrow> wrote f s s'"
  by (simp add: quiet_def wrote_def)

lemma wrote_refl [simp]: "wrote f s s"
  by (simp add: quiet_wrote)

lemma quiet_save_quiet:
  assumes q1: "quiet s s1"
    and t: "trace s2 = trace s1 @ [Save f c deps]"
    and o: "prds s2 = prds s1" "changed_prds s2 = changed_prds s1"
      "changed_system_designs s2 = changed_system_designs s1"
      "\<And>g. g = f \<or> system_designs s2 g = system_designs s1 g"
    and q2: "quiet s2 s'"
  shows "wrote f s s'"
proof -
  from q1 have p1: "prefix (trace s) (trace s1)" by (simp add: quiet_def)
  from t have p2: "prefix (trace s1) (trace s2)" by simp
  from q2 have p3: "prefix (trace s2) (trace s')" by (simp add: quiet_def)
  from p1 p2 have p12: "prefix (trace s) (trace s2)" by (rule prefix_order.trans)
  have e2: "new_events s1 s2 = [Save f c deps]" by (simp add: new_events_def t)
  have "saved_files (new_events s s') = [f]"
    using q1 q2 by (simp add: new_events_trans[OF p12 p3] new_events_trans[OF p1 p2] e2 quiet_def)
  moreover from p12 p3 have "prefix (trace s) (trace s')" by (rule prefix_order.trans)
  ultimately show ?thesis
    using q1 q2 o unfolding wrote_def quiet_def by auto
qed

lemma persist_wrote:
  assumes q1: "quiet s s1"
    and run: "and_then (system_design_save E f c deps)
       (\<lambda>_. and_then (save_data_api_design E d)
          (\<lambda>_. and_then (save_seq_flow E d)
             (\<lambda>_. and_then (save_pdf E d) (\<lambda>_. return d)))) s1 = (r, s')"
  shows "wrote f s s'"
proof (cases "io_error E (trace s1) (Save f c deps)")
  case (Some e)
  then have sv: "system_design_save E f c deps s1 =
      (Inl e, s1\<lparr>trace := trace s1 @ [Save f c deps]\<rparr>)"
    by (simp add: system_design_save_def and_then_def call_def)
  from and_then_InlD[OF run sv] have "s' = s1\<lparr>trace := trace s1 @ [Save f c deps]\<rparr>"
    by simp
  then show ?thesis
    by (intro quiet_save_quiet[OF q1, where ?s2.0=s' and c=c and deps=deps]) simp_all
next
  case None
  let ?s2 = "s1\<lparr>trace := trace s1 @ [Save f c deps],
                 system_designs := (system_designs s1)(f \<mapsto> c)\<rparr>"
  from None have sv: "system_design_save E f c deps s1 = (Inr (), ?s2)"
    by (simp add: system_design_save_def and_then_def call_def)
  note rest = and_then_InrD[OF run sv]
  from keeps_quietD[OF keeps_quiet_rest rest] have q2: "quiet ?s2 s'" .
  show ?thesis
    by (rule quiet_save_quiet[OF q1 _ _ _ _ _ q2, where c=c and deps=deps]) simp_all
qed

lemma update_system_design_wrote:
  assumes "update_system_design E f s = (r, s')"
  shows "wrote f s s'"
proof -
  let ?prd = "repo_get (PRDS_FILE_REPO E) (prds s) f"
  let ?old = "repo_get (SYSTEM_DESIGN_FILE_REPO E) (system_designs s) f"
  let ?branch = "case ?old of
       None \<Rightarrow> (case ?prd of
           None \<Rightarrow> raise AttributeError
         | Some p \<Rightarrow> and_then (new_system_design E (content p))
              (\<lambda>out. return \<lparr>root_path = SYSTEM_DESIGN_FILE_REPO E, filename = f,
                           content = json_of (instruct_content out)\<rparr>))
     | Some old \<Rightarrow> merge_design E ?prd old"
  let ?cont = "\<lambda>doc. case ?prd of
       None \<Rightarrow> raise AttributeError
     | Some p \<Rightarrow>
         and_then (system_design_save E f (content doc) {root_relative_path p})
           (\<lambda>_. and_then (save_data_api_design E doc)
              (\<lambda>_. and_then (save_seq_flow E doc)
                 (\<lambda>_. and_then (save_pdf E doc) (\<lambda>_. return doc))))"
  from assms have u: "and_then ?branch ?cont s = (r, s')"
    unfolding update_system_design_def Let_def .
  have kb: "keeps_quiet ?branch"
    by (auto intro!: keeps_quiet_and_then keeps_quiet_new_system_design
        keeps_quiet_merge_design split: option.splits)
  obtain r1 s1 where b: "?branch s = (r1, s1)" by (cases "?branch s")
  note q1 = keeps_quietD[OF kb b]
  show ?thesis
  proof (cases r1)
    case (Inl e)
    from and_then_InlD[OF u b[unfolded Inl]] have "s' = s1" by simp
    with q1 show ?thesis by (simp add: quiet_wrote)
  next
    case (Inr doc)
    note c = and_then_InrD[OF u b[unfolded Inr]]
    show ?thesis
    proof (cases ?prd)
      case None
      with c have "s' = s1" by (simp add: raise_def)
      with q1 show ?thesis by (simp add: quiet_wrote)
    next
      case (Some p)
      with c have "and_then
          (system_design_save E f (content doc) {root_relative_path p})
          (\<lambda>_. and_then (save_data_api_design E doc)
             (\<lambda>_. and_then (save_seq_flow E doc)
                (\<lambda>_. and_then (save_pdf E doc) (\<lambda>_. return doc)))) s1 = (r, s')"
        by simp
      from persist_wrote[OF q1 this] show ?thesis .
    qed
  qed
qed

subsection \<open>The two loops\<close>

lemma after_save_diagram_events [simp]:
  "after_save f (diagram_events E r repo g data @ evs) = after_save f evs"
  by (simp add: diagram_events_def split: sum.splits)

lemma unit_of_work_unit_events: "unit_of_work f (unit_events E s f c out)"
  by (simp add: unit_events_def Let_def rename_events_def design_doc_def)

lemma update_success_events:
  assumes "update_system_design E f s = (Inr doc, s')"
  shows "\<exists>evs. trace s' = trace s @ evs \<and> unit_of_work f evs \<and> saved_files evs = [f]"
proof -
  from update_success[OF assms] obtain c out where "s' = updated E s f c out" by blast
  then show ?thesis
    by (intro exI[of _ "unit_events E s f c out"])
       (simp add: updated_def unit_of_work_unit_events)
qed

lemma keys_update:
  "map fst (AList.update f d xs) =
     (if f \<in> fst ` set xs then map fst xs else map fst xs @ [f])"
  by (simp add: update_keys)


lemma update_changed_prds_ok:
  "update_changed_prds E fs cf s = (Inr cf', s') \<Longrightarrow>
     \<exists>blocks. trace s' = trace s @ concat blocks \<and> list_all2 unit_of_work fs blocks \<and>
       saved_files (concat blocks) = fs \<and>
       fst ` set (docs cf') = fst ` set (docs cf) \<union> set fs \<and>
       (distinct fs \<and> set fs \<inter> fst ` set (docs cf) = {} \<longrightarrow>
          map fst (docs cf') = map fst (docs cf) @ fs)"
proof (induction fs arbitrary: cf s)
  case Nil
  then show ?case
    by (intro exI[of _ "[]"]) (simp add: return_def)
next
  case (Cons f fs)
  from Cons.prems obtain doc s1 where
    u: "update_system_design E f s = (Inr doc, s1)" and
    r: "update_changed_prds E fs (cf\<lparr>docs := AList.update f doc (docs cf)\<rparr>) s1 = (Inr cf', s')"
    by (auto simp: and_then_ok)
  from update_success_events[OF u] obtain evs where
    e: "trace s1 = trace s @ evs" "unit_of_work f evs" "saved_files evs = [f]"
    by blast
  from Cons.IH[OF r] obtain blocks where
    b: "trace s' = trace s1 @ concat blocks" "list_all2 unit_of_work fs blocks"
      "saved_files (concat blocks) = fs"
      "fst ` set (docs cf') =
         fst ` set (docs (cf\<lparr>docs := AList.update f doc (docs cf)\<rparr>)) \<union> set fs"
      "distinct fs \<and> set fs \<inter> fst ` set (docs (cf\<lparr>docs := AList.update f doc (docs cf)\<rparr>)) = {}
         \<longrightarrow> map fst (docs cf') =
             map fst (docs (cf\<lparr>docs := AList.update f doc (docs cf)\<rparr>)) @ fs"
    by blast
  have k: "fst ` set (AList.update f doc (docs cf)) = insert f (fst ` set (docs cf))"
    using keys_update[of f doc "docs cf"]
    by (metis (no_types, lifting) Un_insert_right append_Nil2 insert_absorb list.set(2)
        list.set_map set_append)
  show ?case
  proof (intro exI[of _ "evs # blocks"] conjI impI)
    show "trace s' = trace s @ concat (evs # blocks)" using e b by simp
    show "list_all2 unit_of_work (f # fs) (evs # blocks)" using e b by simp
    show "saved_files (concat (evs # blocks)) = f # fs" using e b by simp
    show "fst ` set (docs cf') = fst ` set (docs cf) \<union> set (f # fs)"
      using b(4) k by auto
    show "map fst (docs cf') = map fst (docs cf) @ f # fs"
      if "distinct (f # fs) \<and> set (f # fs) \<inter> fst ` set (docs cf) = {}"
    proof -
      from that have nf: "f \<notin> fst ` set (docs cf)" and
        d: "distinct fs \<and> set fs \<inter> insert f (fst ` set (docs cf)) = {}"
        by auto
      from b(5) d k have "map fst (docs cf') = map fst (AList.update f doc (docs cf)) @ fs"
        by simp
      with nf show ?thesis by (simp add: keys_update)
    qed
  qed
qed

lemma update_changed_system_designs_ok:
  "update_changed_system_designs E fs cf s = (Inr cf', s') \<Longrightarrow>
     \<exists>blocks. trace s' = trace s @ concat blocks \<and>
       list_all2 unit_of_work (unseen (fst ` set (docs cf)) fs) blocks \<and>
       saved_files (concat blocks) = unseen (fst ` set (docs cf)) fs \<and>
       map fst (docs cf') = map fst (docs cf) @ unseen (fst ` set (docs cf)) fs"
proof (induction fs arbitrary: cf s)
  case Nil
  then show ?case
    by (intro exI[of _ "[]"]) (simp add: return_def)
next
  case (Cons f fs)
  show ?case
  proof (cases "f \<in> fst ` set (docs cf)")
    case True
    with Cons.prems have "update_changed_system_designs E fs cf s = (Inr cf', s')" by simp
    from Cons.IH[OF this] True show ?thesis by simp
  next
    case False
    with Cons.prems obtain doc s1 where
      u: "update_system_design E f s = (Inr doc, s1)" and
      r: "update_changed_system_designs E fs (cf\<lparr>docs := AList.update f doc (docs cf)\<rparr>) s1 =
            (Inr cf', s')"
      by (auto simp: and_then_ok)
    from update_success_events[OF u] obtain evs where
      e: "trace s1 = trace s @ evs" "unit_of_work f evs" "saved_files evs = [f]"
      by blast
    have k: "fst ` set (AList.update f doc (docs cf)) = insert f (fst ` set (docs cf))"
      using keys_update[of f doc "docs cf"]
      by (metis (no_types, lifting) Un_insert_right append_Nil2 insert_absorb list.set(2)
          list.set_map set_append)
    from Cons.IH[OF r] obtain blocks where
      b: "trace s' = trace s1 @ concat blocks"
        "list_all2 unit_of_work (unseen (insert f (fst ` set (docs cf))) fs) blocks"
        "saved_files (concat blocks) = unseen (insert f (fst ` set (docs cf))) fs"
        "map fst (docs cf') =
           map fst (AList.update f doc (docs cf)) @ unseen (insert f (fst ` set (docs cf))) fs"
      by (auto simp: k)
    show ?thesis
      by (intro exI[of _ "evs # blocks"]) (use e b False in \<open>simp add: keys_update\<close>)
  qed
qed

lemma wroteD:
  assumes "wrote f s s'"
  shows "prefix (trace s) (trace s')" "prefix (saved_files (new_events s s')) [f]"
    "prds s' = prds s" "\<And>g. g \<noteq> f \<Longrightarrow> system_designs s' g = system_designs s g"
  using assms by (auto simp: wrote_def)

lemma prefix_singleton_Cons: "prefix xs [f] \<Longrightarrow> prefix xs (f # fs)"
  by (cases xs) (auto simp: prefix_def)

lemma update_changed_prds_saves:
  "update_changed_prds E fs cf s = (r, s') \<Longrightarrow>
     prefix (trace s) (trace s') \<and> prefix (saved_files (new_events s s')) fs"
proof (induction fs arbitrary: cf s)
  case Nil
  then show ?case by (simp add: return_def)
next
  case (Cons f fs)
  obtain r1 s1 where u: "update_system_design E f s = (r1, s1)"
    by (cases "update_system_design E f s")
  note w = wroteD[OF update_system_design_wrote[OF u]]
  from Cons.prems have a: "and_then (update_system_design E f)
       (\<lambda>doc. update_changed_prds E fs (cf\<lparr>docs := AList.update f doc (docs cf)\<rparr>)) s = (r, s')"
    by simp
  show ?case
  proof (cases r1)
    case (Inl e)
    from and_then_InlD[OF a u[unfolded Inl]] have "s' = s1" by simp
    with w show ?thesis by (simp add: prefix_singleton_Cons)
  next
    case (Inr doc)
    note r = and_then_InrD[OF a u[unfolded Inr]]
    from Cons.IH[OF r] have p: "prefix (trace s1) (trace s')"
      and q: "prefix (saved_files (new_events s1 s')) fs" by simp_all
    from update_success_events[OF u[unfolded Inr]] obtain evs where
      "trace s1 = trace s @ evs" "saved_files evs = [f]" by blast
    then have "saved_files (new_events s s1) = [f]" by (simp add: new_events_def)
    with q have "prefix (saved_files (new_events s s')) (f # fs)"
      by (simp add: new_events_trans[OF w(1) p])
    moreover from w(1) p have "prefix (trace s) (trace s')" by (rule prefix_order.trans)
    ultimately show ?thesis by simp
  qed
qed

lemma update_changed_system_designs_saves:
  "update_changed_system_designs E fs cf s = (r, s') \<Longrightarrow>
     prefix (trace s) (trace s') \<and>
     prefix (saved_files (new_events s s')) (unseen (fst ` set (docs cf)) fs)"
proof (induction fs arbitrary: cf s)
  case Nil
  then show ?case by (simp add: return_def)
next
  case (Cons f fs)
  show ?case
  proof (cases "f \<in> fst ` set (docs cf)")
    case True
    with Cons.prems have "update_changed_system_designs E fs cf s = (r, s')" by simp
    from Cons.IH[OF this] True show ?thesis by simp
  next
    case False
    obtain r1 s1 where u: "update_system_design E f s = (r1, s1)"
      by (cases "update_system_design E f s")
    note w = wroteD[OF update_system_design_wrote[OF u]]
    from Cons.prems False have a: "and_then (update_system_design E f)
         (\<lambda>doc. update_changed_system_designs E fs
            (cf\<lparr>docs := AList.update f doc (docs cf)\<rparr>)) s = (r, s')"
      by simp
    show ?thesis
    proof (cases r1)
      case (Inl e)
      from and_then_InlD[OF a u[unfolded Inl]] have "s' = s1" by simp
      with w False show ?thesis by (simp add: prefix_singleton_Cons)
    next
      case (Inr doc)
      note r = and_then_InrD[OF a u[unfolded Inr]]
      have k: "fst ` set (AList.update f doc (docs cf)) = insert f (fst ` set (docs cf))"
        using keys_update[of f doc "docs cf"]
        by (metis (no_types, lifting) Un_insert_right append_Nil2 insert_absorb list.set(2)
            list.set_map set_append)
      from Cons.IH[OF r] have p: "prefix (trace s1) (trace s')"
        and q: "prefix (saved_files (new_events s1 s'))
                  (unseen (insert f (fst ` set (docs cf))) fs)"
        by (simp_all add: k)
      from update_success_events[OF u[unfolded Inr]] obtain evs where
        "trace s1 = trace s @ evs" "saved_files evs = [f]" by blast
      then have "saved_files (new_events s s1) = [f]" by (simp add: new_events_def)
      with q False have "prefix (saved_files (new_events s s'))
          (unseen (fst ` set (docs cf)) (f # fs))"
        by (simp add: new_events_trans[OF w(1) p])
      moreover from w(1) p have "prefix (trace s) (trace s')" by (rule prefix_order.trans)
      ultimately show ?thesis by simp
    qed
  qed
qed

lemma unseen_fresh: "distinct (unseen S fs) \<and> set (unseen S fs) \<inter> S = {}"
proof (induction fs arbitrary: S)
  case Nil
  show ?case by simp
next
  case (Cons f fs)
  from Cons.IH[of S] Cons.IH[of "insert f S"] show ?case by auto
qed

lemma distinct_processed:
  "distinct (map fst (changed_prds s)) \<Longrightarrow> distinct (processed s)"
  using unseen_fresh[of "set (map fst (changed_prds s))" "map fst (changed_system_designs s)"]
  by (auto simp: processed_def)

lemma run_ok:
  assumes "run E s = (Inr out, s')"
  shows "\<exists>blocks. new_events s s' = concat blocks \<and>
     list_all2 unit_of_work (processed s) blocks \<and>
     saved_files (new_events s s') = processed s \<and>
     (distinct (map fst (changed_prds s)) \<longrightarrow>
        map fst (docs (instruct_content out)) = processed s)"
proof -
  let ?fs1 = "map fst (changed_prds s)" and ?fs2 = "map fst (changed_system_designs s)"
  from assms obtain cf1 s1 cf2 where
    l1: "update_changed_prds E ?fs1 \<lparr>docs = []\<rparr> s = (Inr cf1, s1)" and
    l2: "update_changed_system_designs E ?fs2 cf1 s1 = (Inr cf2, s')" and
    o: "out = \<lparr>output_content = documents_json cf2, instruct_content = cf2\<rparr>"
    by (auto simp: run_def and_then_ok return_ok)
  from update_changed_prds_ok[OF l1] obtain b1 where
    b1: "trace s1 = trace s @ concat b1" "list_all2 unit_of_work ?fs1 b1"
      "saved_files (concat b1) = ?fs1" "fst ` set (docs cf1) = set ?fs1"
      "distinct ?fs1 \<longrightarrow> map fst (docs cf1) = ?fs1"
    by auto
  from update_changed_system_designs_ok[OF l2] obtain b2 where
    b2: "trace s' = trace s1 @ concat b2"
      "list_all2 unit_of_work (unseen (set ?fs1) ?fs2) b2"
      "saved_files (concat b2) = unseen (set ?fs1) ?fs2"
      "map fst (docs cf2) = map fst (docs cf1) @ unseen (set ?fs1) ?fs2"
    unfolding b1(4) by blast
  have n: "new_events s s' = concat (b1 @ b2)"
    by (simp add: new_events_def b1 b2)
  show ?thesis
  proof (intro exI[of _ "b1 @ b2"] conjI impI)
    show "new_events s s' = concat (b1 @ b2)" by (rule n)
    show "list_all2 unit_of_work (processed s) (b1 @ b2)"
      unfolding processed_def using b1(2) b2(2) by (rule list_all2_appendI)
    show "saved_files (new_events s s') = processed s"
      by (simp add: n b1 b2 processed_def)
    show "map fst (docs (instruct_content out)) = processed s"
      if "distinct ?fs1"
      using that b1(5) b2(4) by (simp add: o processed_def)
  qed
qed

lemma run_saves:
  assumes "run E s = (r, s')"
  shows "prefix (trace s) (trace s') \<and> prefix (saved_files (new_events s s')) (processed s)"
proof -
  let ?fs1 = "map fst (changed_prds s)" and ?fs2 = "map fst (changed_system_designs s)"
  let ?rest = "\<lambda>changed_files.
          and_then (update_changed_system_designs E ?fs2 changed_files)
            (\<lambda>changed_files.
               return \<lparr>output_content = documents_json changed_files,
                       instruct_content = changed_files\<rparr>)"
  from assms have a: "and_then (update_changed_prds E ?fs1 \<lparr>docs = []\<rparr>) ?rest s = (r, s')"
    unfolding run_def .
  obtain r1 s1 where l1: "update_changed_prds E ?fs1 \<lparr>docs = []\<rparr> s = (r1, s1)"
    by (cases "update_changed_prds E ?fs1 \<lparr>docs = []\<rparr> s")
  from update_changed_prds_saves[OF l1] have p1: "prefix (trace s) (trace s1)"
    and q1: "prefix (saved_files (new_events s s1)) ?fs1" by simp_all
  show ?thesis
  proof (cases r1)
    case (Inl e)
    from and_then_InlD[OF a l1[unfolded Inl]] have "s' = s1" by simp
    with p1 q1 show ?thesis by (auto simp: processed_def prefix_def)
  next
    case (Inr cf1)
    note r = and_then_InrD[OF a l1[unfolded Inr]]
    obtain r2 s2 where l2: "update_changed_system_designs E ?fs2 cf1 s1 = (r2, s2)"
      by (cases "update_changed_system_designs E ?fs2 cf1 s1")
    have s2: "s' = s2"
    proof (cases r2)
      case (Inl e)
      from and_then_InlD[OF r l2[unfolded Inl]] show ?thesis by simp
    next
      case (Inr cf2)
      from and_then_InrD[OF r l2[unfolded Inr]] show ?thesis by (simp add: return_def)
    qed
    from update_changed_prds_ok[OF l1[unfolded Inr]] obtain b1 where
      b1: "trace s1 = trace s @ concat b1" "saved_files (concat b1) = ?fs1"
        "fst ` set (docs cf1) = set ?fs1"
      by auto
    then have e1: "saved_files (new_events s s1) = ?fs1" by (simp add: new_events_def)
    from update_changed_system_designs_saves[OF l2] have p2: "prefix (trace s1) (trace s2)"
      and q2: "prefix (saved_files (new_events s1 s2)) (unseen (set ?fs1) ?fs2)"
      by (simp_all add: b1(3))
    from q2 have "prefix (saved_files (new_events s s2)) (processed s)"
      by (simp add: new_events_trans[OF p1 p2] e1 processed_def)
    moreover from p1 p2 have "prefix (trace s) (trace s2)" by (rule prefix_order.trans)
    ultimately show ?thesis by (simp add: s2)
  qed
qed

subsection \<open>A run as a chain of updates\<close>

lemma update_unit_block:
  assumes "update_system_design E f s = (Inr doc, s1)"
  shows "unit_block E f s doc (new_events s s1)"
proof -
  from update_success[OF assms] obtain c out where
    c: "prds s f = Some c" and a: "aask_v1 E (trace s) (the_prompt E s f c) = Inr out" and
    d: "doc = design_doc E f out" and s1: "s1 = updated E s f c out" and
    st: "(\<exists>stem. with_suffix_empty f = Inr stem) \<or>
      (Data_structures_and_interface_definitions (instruct_content (fix_output out)) = [] \<and>
       Program_call_flow (instruct_content (fix_output out)) = [])"
    by blast
  have ev: "new_events s s1 = unit_events E s f c out"
    by (simp add: s1)
  have len: "length (rendered (unit_events E s f c out)) =
       (if Data_structures_and_interface_definitions (instruct_content (fix_output out)) = []
        then 0 else 1) +
       (if Program_call_flow (instruct_content (fix_output out)) = [] then 0 else 1)"
    using st by (auto simp: rendered_unit_events diagram_path_def)
  have cd: "content (design_doc E f out) = json_of (instruct_content (fix_output out))"
    by (simp add: design_doc_def)
  have list: "unit_events E s f c out =
       [Aask (the_prompt E s f c)] @
       rename_events E s f (Python_package_name (instruct_content (fix_output out))) @
       [Save f (content (design_doc E f out)) {path_join (PRDS_FILE_REPO E) f}] @
       diagram_events E
         (root_after E s f (Python_package_name (instruct_content (fix_output out))))
         (DATA_API_DESIGN_FILE_REPO E) f
         (Data_structures_and_interface_definitions (instruct_content (fix_output out))) @
       diagram_events E
         (root_after E s f (Python_package_name (instruct_content (fix_output out))))
         (SEQ_FLOW_FILE_REPO E) f (Program_call_flow (instruct_content (fix_output out))) @
       [SavePdf (design_doc E f out)]"
    by (simp add: unit_events_def Let_def cd)
  show ?thesis
    using len by (simp add: unit_block_def c a ev d Let_def list)
qed

lemma unit_block_shape:
  assumes "unit_block E f s doc evs"
  shows "unit_of_work f evs"
proof -
  from assms obtain c out where
    "evs = [Aask (the_prompt E s f c)] @
       rename_events E s f (Python_package_name (instruct_content (fix_output out))) @
       [Save f (content doc) {path_join (PRDS_FILE_REPO E) f}] @
       diagram_events E
         (root_after E s f (Python_package_name (instruct_content (fix_output out))))
         (DATA_API_DESIGN_FILE_REPO E) f
         (Data_structures_and_interface_definitions (instruct_content (fix_output out))) @
       diagram_events E
         (root_after E s f (Python_package_name (instruct_content (fix_output out))))
         (SEQ_FLOW_FILE_REPO E) f (Program_call_flow (instruct_content (fix_output out))) @
       [SavePdf doc]" and "doc = design_doc E f out"
    by (auto simp: unit_block_def Let_def split: option.splits sum.splits)
  then show ?thesis
    by (simp add: rename_events_def design_doc_def)
qed

lemma unit_blocks_shape:
  "unit_blocks E fs blocks s s' \<Longrightarrow> list_all2 unit_of_work fs blocks"
proof (induction fs arbitrary: blocks s)
  case Nil
  then show ?case by simp
next
  case (Cons f fs)
  then show ?case
    by (cases blocks) (auto split: prod.splits sum.splits dest: unit_block_shape)
qed

lemma unit_blocks_append:
  "unit_blocks E fs1 b1 s s1 \<Longrightarrow> unit_blocks E fs2 b2 s1 s' \<Longrightarrow>
   unit_blocks E (fs1 @ fs2) (b1 @ b2) s s'"
proof (induction fs1 arbitrary: b1 s)
  case Nil
  then show ?case by simp
next
  case (Cons f fs)
  then show ?case
    by (cases b1) (auto split: prod.splits sum.splits)
qed

lemma update_trace:
  assumes "update_system_design E f s = (Inr doc, s1)"
  shows "trace s1 = trace s @ new_events s s1"
proof -
  from update_success_events[OF assms] obtain evs where "trace s1 = trace s @ evs" by blast
  then show ?thesis by (simp add: new_events_def)
qed

lemma update_changed_prds_blocks:
  "update_changed_prds E fs cf s = (Inr cf', s') \<Longrightarrow>
     \<exists>blocks. trace s' = trace s @ concat blocks \<and> unit_blocks E fs blocks s s'"
proof (induction fs arbitrary: cf s)
  case Nil
  then show ?case
    by (intro exI[of _ "[]"]) (simp add: return_def)
next
  case (Cons f fs)
  from Cons.prems obtain doc s1 where
    u: "update_system_design E f s = (Inr doc, s1)" and
    r: "update_changed_prds E fs (cf\<lparr>docs := AList.update f doc (docs cf)\<rparr>) s1 = (Inr cf', s')"
    by (auto simp: and_then_ok)
  from Cons.IH[OF r] obtain blocks where
    b: "trace s' = trace s1 @ concat blocks" "unit_blocks E fs blocks s1 s'"
    by blast
  show ?case
    by (intro exI[of _ "new_events s s1 # blocks"])
       (simp add: u b update_trace[OF u] update_unit_block[OF u])
qed

lemma update_changed_system_designs_blocks:
  "update_changed_system_designs E fs cf s = (Inr cf', s') \<Longrightarrow>
     \<exists>blocks. trace s' = trace s @ concat blocks \<and>
       unit_blocks E (unseen (fst ` set (docs cf)) fs) blocks s s'"
proof (induction fs arbitrary: cf s)
  case Nil
  then show ?case
    by (intro exI[of _ "[]"]) (simp add: return_def)
next
  case (Cons f fs)
  show ?case
  proof (cases "f \<in> fst ` set (docs cf)")
    case True
    with Cons.prems have "update_changed_system_designs E fs cf s = (Inr cf', s')" by simp
    from Cons.IH[OF this] True show ?thesis by simp
  next
    case False
    with Cons.prems obtain doc s1 where
      u: "update_system_design E f s = (Inr doc, s1)" and
      r: "update_changed_system_designs E fs (cf\<lparr>docs := AList.update f doc (docs cf)\<rparr>) s1 =
            (Inr cf', s')"
      by (auto simp: and_then_ok)
    have k: "fst ` set (AList.update f doc (docs cf)) = insert f (fst ` set (docs cf))"
      using keys_update[of f doc "docs cf"]
      by (metis (no_types, lifting) Un_insert_right append_Nil2 insert_absorb list.set(2)
          list.set_map set_append)
    from Cons.IH[OF r] obtain blocks where
      b: "trace s' = trace s1 @ concat blocks"
        "unit_blocks E (unseen (insert f (fst ` set (docs cf))) fs) blocks s1 s'"
      by (auto simp: k)
    show ?thesis
      by (intro exI[of _ "new_events s s1 # blocks"])
         (simp add: False u b update_trace[OF u] update_unit_block[OF u])
  qed
qed

lemma set_unseen: "set (unseen S fs) = set fs - S"
  by (induction fs arbitrary: S) auto

lemma set_processed:
  "set (processed s) = fst ` set (changed_prds s) \<union> fst ` set (changed_system_designs s)"
  by (auto simp: processed_def set_unseen)

lemma run_blocks:
  assumes "run E s = (Inr out, s')"
  shows "\<exists>s1 b1 b2.
     unit_blocks E (map fst (changed_prds s)) b1 s s1 \<and>
     unit_blocks E
       (unseen (set (map fst (changed_prds s))) (map fst (changed_system_designs s))) b2 s1 s' \<and>
     new_events s s' = concat b1 @ concat b2"
proof -
  let ?fs1 = "map fst (changed_prds s)" and ?fs2 = "map fst (changed_system_designs s)"
  from assms obtain cf1 s1 cf2 where
    l1: "update_changed_prds E ?fs1 \<lparr>docs = []\<rparr> s = (Inr cf1, s1)" and
    l2: "update_changed_system_designs E ?fs2 cf1 s1 = (Inr cf2, s')"
    by (auto simp: run_def and_then_ok return_ok)
  from update_changed_prds_ok[OF l1] have k: "fst ` set (docs cf1) = set ?fs1"
    by auto
  from update_changed_prds_blocks[OF l1] obtain b1 where
    b1: "trace s1 = trace s @ concat b1" "unit_blocks E ?fs1 b1 s s1"
    by blast
  from update_changed_system_designs_blocks[OF l2] obtain b2 where
    b2: "trace s' = trace s1 @ concat b2" "unit_blocks E (unseen (set ?fs1) ?fs2) b2 s1 s'"
    unfolding k by blast
  have "new_events s s' = concat b1 @ concat b2"
    by (simp add: new_events_def b1 b2)
  with b1 b2 show ?thesis by blast
qed

lemma example_processed: "processed example_state = [''a.json'', ''b.json'']"
  by (simp add: processed_def example_state_def)

lemma prefix_distinct: "prefix xs ys \<Longrightarrow> distinct ys \<Longrightarrow> distinct xs"
  by (auto simp: prefix_def)

lemma update_named:
  "\<forall>(k, d) \<in> set al. filename d = k \<Longrightarrow> filename v = f \<Longrightarrow>
   \<forall>(k, d) \<in> set (AList.update f v al). filename d = k"
  by (induction al) auto

lemma update_filename:
  assumes "update_system_design E f s = (Inr doc, s')"
  shows "filename doc = f"
proof -
  from update_success[OF assms] obtain out where "doc = design_doc E f out" by blast
  then show ?thesis by (simp add: design_doc_def)
qed

lemma update_changed_prds_named:
  "update_changed_prds E fs cf s = (Inr cf', s') \<Longrightarrow>
   \<forall>(k, d) \<in> set (docs cf). filename d = k \<Longrightarrow>
   \<forall>(k, d) \<in> set (docs cf'). filename d = k"
proof (induction fs arbitrary: cf s)
  case Nil
  then show ?case by (simp add: return_def)
next
  case (Cons f fs)
  from Cons.prems(1) obtain doc s1 where
    u: "update_system_design E f s = (Inr doc, s1)" and
    r: "update_changed_prds E fs (cf\<lparr>docs := AList.update f doc (docs cf)\<rparr>) s1 = (Inr cf', s')"
    by (auto simp: and_then_ok)
  from update_named[OF Cons.prems(2) update_filename[OF u]]
  have "\<forall>(k, d) \<in> set (docs (cf\<lparr>docs := AList.update f doc (docs cf)\<rparr>)). filename d = k"
    by simp
  from Cons.IH[OF r this] show ?case .
qed

lemma update_changed_system_designs_named:
  "update_changed_system_designs E fs cf s = (Inr cf', s') \<Longrightarrow>
   \<forall>(k, d) \<in> set (docs cf). filename d = k \<Longrightarrow>
   \<forall>(k, d) \<in> set (docs cf'). filename d = k"
proof (induction fs arbitrary: cf s)
  case Nil
  then show ?case by (simp add: return_def)
next
  case (Cons f fs)
  show ?case
  proof (cases "f \<in> fst ` set (docs cf)")
    case True
    with Cons.prems(1) have "update_changed_system_designs E fs cf s = (Inr cf', s')" by simp
    from Cons.IH[OF this Cons.prems(2)] show ?thesis .
  next
    case False
    with Cons.prems(1) obtain doc s1 where
      u: "update_system_design E f s = (Inr doc, s1)" and
      r: "update_changed_system_designs E fs (cf\<lparr>docs := AList.update f doc (docs cf)\<rparr>) s1 =
            (Inr cf', s')"
      by (auto simp: and_then_ok)
    from update_named[OF Cons.prems(2) update_filename[OF u]]
    have "\<forall>(k, d) \<in> set (docs (cf\<lparr>docs := AList.update f doc (docs cf)\<rparr>)). filename d = k"
      by simp
    from Cons.IH[OF r this] show ?thesis .
  qed
qed

lemma run_named:
  assumes "run E s = (Inr out, s')"
  shows "\<forall>(k, d) \<in> set (docs (instruct_content out)). filename d = k"
proof -
  from assms obtain cf1 s1 cf2 where
    l1: "update_changed_prds E (map fst (changed_prds s)) \<lparr>docs = []\<rparr> s = (Inr cf1, s1)" and
    l2: "update_changed_system_designs E (map fst (changed_system_designs s)) cf1 s1 =
          (Inr cf2, s')" and
    o: "out = \<lparr>output_content = documents_json cf2, instruct_content = cf2\<rparr>"
    by (auto simp: run_def and_then_ok return_ok)
  from update_changed_prds_named[OF l1] have "\<forall>(k, d) \<in> set (docs cf1). filename d = k"
    by simp
  from update_changed_system_designs_named[OF l2 this] show ?thesis
    by (simp add: o)
qed

lemma update_changed_prds_raises:
  "update_changed_prds E fs cf s = (Inl e, s') \<Longrightarrow>
     \<exists>before f rest blocks s1. fs = before @ f # rest \<and>
        unit_blocks E before blocks s s1 \<and> trace s1 = trace s @ concat blocks \<and>
        update_system_design E f s1 = (Inl e, s')"
proof (induction fs arbitrary: cf s)
  case Nil
  then show ?case by (simp add: return_def)
next
  case (Cons f fs)
  obtain r1 s1 where u: "update_system_design E f s = (r1, s1)"
    by (cases "update_system_design E f s")
  from Cons.prems have a: "and_then (update_system_design E f)
       (\<lambda>doc. update_changed_prds E fs (cf\<lparr>docs := AList.update f doc (docs cf)\<rparr>)) s =
         (Inl e, s')"
    by simp
  show ?case
  proof (cases r1)
    case (Inl e1)
    from and_then_InlD[OF a u[unfolded Inl]] have "e1 = e" "s' = s1" by simp_all
    with u Inl have "update_system_design E f s = (Inl e, s')" by simp
    then show ?thesis
      by (intro exI[of _ "[]"] exI[of _ f] exI[of _ fs] exI[of _ s]) simp
  next
    case (Inr doc)
    note u' = u[unfolded Inr]
    from Cons.IH[OF and_then_InrD[OF a u']] obtain before g rest blocks s2 where
      b: "fs = before @ g # rest" "unit_blocks E before blocks s1 s2"
        "trace s2 = trace s1 @ concat blocks" "update_system_design E g s2 = (Inl e, s')"
      by blast
    show ?thesis
      by (intro exI[of _ "f # before"] exI[of _ g] exI[of _ rest]
            exI[of _ "new_events s s1 # blocks"] exI[of _ s2])
         (simp add: b u' update_trace[OF u'] update_unit_block[OF u'])
  qed
qed

lemma update_changed_system_designs_raises:
  "update_changed_system_designs E fs cf s = (Inl e, s') \<Longrightarrow>
     \<exists>before f rest blocks s1. unseen (fst ` set (docs cf)) fs = before @ f # rest \<and>
        unit_blocks E before blocks s s1 \<and> trace s1 = trace s @ concat blocks \<and>
        update_system_design E f s1 = (Inl e, s')"
proof (induction fs arbitrary: cf s)
  case Nil
  then show ?case by (simp add: return_def)
next
  case (Cons f fs)
  show ?case
  proof (cases "f \<in> fst ` set (docs cf)")
    case True
    with Cons.prems have "update_changed_system_designs E fs cf s = (Inl e, s')" by simp
    from Cons.IH[OF this] True show ?thesis by simp
  next
    case False
    obtain r1 s1 where u: "update_system_design E f s = (r1, s1)"
      by (cases "update_system_design E f s")
    from Cons.prems False have a: "and_then (update_system_design E f)
         (\<lambda>doc. update_changed_system_designs E fs
            (cf\<lparr>docs := AList.update f doc (docs cf)\<rparr>)) s = (Inl e, s')"
      by simp
    show ?thesis
    proof (cases r1)
      case (Inl e1)
      from and_then_InlD[OF a u[unfolded Inl]] have "e1 = e" "s' = s1" by simp_all
      with u Inl have "update_system_design E f s = (Inl e, s')" by simp
      then show ?thesis
        by (intro exI[of _ "[]"] exI[of _ f]
              exI[of _ "unseen (insert f (fst ` set (docs cf))) fs"] exI[of _ s])
           (simp add: False)
    next
      case (Inr doc)
      note u' = u[unfolded Inr]
      have k: "fst ` set (AList.update f doc (docs cf)) = insert f (fst ` set (docs cf))"
        by (simp add: dom_update)
      from Cons.IH[OF and_then_InrD[OF a u']] obtain before g rest blocks s2 where
        b: "unseen (insert f (fst ` set (docs cf))) fs = before @ g # rest"
          "unit_blocks E before blocks s1 s2"
          "trace s2 = trace s1 @ concat blocks" "update_system_design E g s2 = (Inl e, s')"
        by (auto simp: k)
      show ?thesis
        by (intro exI[of _ "f # before"] exI[of _ g] exI[of _ rest]
              exI[of _ "new_events s s1 # blocks"] exI[of _ s2])
           (simp add: False b u' update_trace[OF u'] update_unit_block[OF u'])
    qed
  qed
qed

lemma run_raises:
  assumes "run E s = (Inl e, s')"
  shows "\<exists>before f rest blocks s1. processed s = before @ f # rest \<and>
     unit_blocks E before blocks s s1 \<and> update_system_design E f s1 = (Inl e, s') \<and>
     new_events s s' = concat blocks @ new_events s1 s'"
proof -
  let ?fs1 = "map fst (changed_prds s)" and ?fs2 = "map fst (changed_system_designs s)"
  let ?rest = "\<lambda>changed_files.
          and_then (update_changed_system_designs E ?fs2 changed_files)
            (\<lambda>changed_files.
               return \<lparr>output_content = documents_json changed_files,
                       instruct_content = changed_files\<rparr>)"
  from assms have a: "and_then (update_changed_prds E ?fs1 \<lparr>docs = []\<rparr>) ?rest s = (Inl e, s')"
    unfolding run_def .
  have fin: "new_events s s' = concat blocks @ new_events s1 s'"
    if "trace s1 = trace s @ concat blocks" "update_system_design E f s1 = (Inl e, s')"
    for blocks s1 f
  proof -
    from wroteD(1)[OF update_system_design_wrote[OF that(2)]]
    have p: "prefix (trace s1) (trace s')" .
    have q: "prefix (trace s) (trace s1)" by (simp add: that(1))
    have "new_events s s1 = concat blocks" by (simp add: new_events_def that(1))
    with new_events_trans[OF q p] show ?thesis by simp
  qed
  obtain r1 s1 where l1: "update_changed_prds E ?fs1 \<lparr>docs = []\<rparr> s = (r1, s1)"
    by (cases "update_changed_prds E ?fs1 \<lparr>docs = []\<rparr> s")
  show ?thesis
  proof (cases r1)
    case (Inl e1)
    from and_then_InlD[OF a l1[unfolded Inl]] have "e1 = e" "s' = s1" by simp_all
    with l1 Inl have "update_changed_prds E ?fs1 \<lparr>docs = []\<rparr> s = (Inl e, s')" by simp
    from update_changed_prds_raises[OF this] obtain before f rest blocks s2 where
      b: "?fs1 = before @ f # rest" "unit_blocks E before blocks s s2"
        "trace s2 = trace s @ concat blocks" "update_system_design E f s2 = (Inl e, s')"
      by blast
    have "processed s = before @ f #
        (rest @ unseen (set ?fs1) ?fs2)"
      by (simp add: processed_def b(1)[symmetric])
    with b fin[OF b(3) b(4)] show ?thesis by blast
  next
    case (Inr cf1)
    note l1' = l1[unfolded Inr]
    from update_changed_prds_ok[OF l1'] have k: "fst ` set (docs cf1) = set ?fs1"
      by auto
    from update_changed_prds_blocks[OF l1'] obtain b1 where
      b1: "trace s1 = trace s @ concat b1" "unit_blocks E ?fs1 b1 s s1"
      by blast
    note r = and_then_InrD[OF a l1']
    obtain r2 s2 where l2: "update_changed_system_designs E ?fs2 cf1 s1 = (r2, s2)"
      by (cases "update_changed_system_designs E ?fs2 cf1 s1")
    show ?thesis
    proof (cases r2)
      case (Inl e2)
      from and_then_InlD[OF r l2[unfolded Inl]] have "e2 = e" "s' = s2" by simp_all
      with l2 Inl have "update_changed_system_designs E ?fs2 cf1 s1 = (Inl e, s')" by simp
      from update_changed_system_designs_raises[OF this] obtain before f rest blocks s3 where
        b: "unseen (set ?fs1) ?fs2 = before @ f # rest" "unit_blocks E before blocks s1 s3"
          "trace s3 = trace s1 @ concat blocks" "update_system_design E f s3 = (Inl e, s')"
        unfolding k by blast
      have p: "processed s = (?fs1 @ before) @ f # rest"
        using b(1) by (simp add: processed_def)
      have t: "trace s3 = trace s @ concat (b1 @ blocks)"
        by (simp add: b(3) b1(1))
      from p unit_blocks_append[OF b1(2) b(2)] b(4) fin[OF t b(4)] show ?thesis by blast
    next
      case (Inr cf2)
      from and_then_InrD[OF r l2[unfolded Inr]] show ?thesis by (simp add: return_def)
    qed
  qed
qed

subsection \<open>The calls of one update belong to its file\<close>

lemma list_all_diagram_events:
  "list_all (written_for E f doc r) (diagram_events E r (DATA_API_DESIGN_FILE_REPO E) f data)"
  "list_all (written_for E f doc r) (diagram_events E r (SEQ_FLOW_FILE_REPO E) f data)"
  by (simp_all add: diagram_events_def split: sum.splits)

lemma written_for_unit_events:
  "list_all (written_for E f (design_doc E f out)
      (root_after E s f (Python_package_name (instruct_content (fix_output out)))))
     (unit_events E s f c out)"
  by (simp add: unit_events_def Let_def list_all_diagram_events rename_events_def
      root_after_def design_doc_def)

section \<open>The claims\<close>

text \<open>
  C4. \<open>run\<close> handles no exception. Of the calls that a run makes to the model, to the
  repositories and to the renderers, one that raises is the last call of the run, and
  the exception it raised is the result of \<open>run\<close>: nothing is caught, retried or
  continued. The calls of a run only extend the trace.
\<close>

theorem run_propagates_exceptions:
  "prefix (trace s) (trace (snd (run E s))) \<and>
   propagated E (trace s) (new_events s (snd (run E s))) (raised (fst (run E s)))"
  using propagates_run[of E] unfolding propagates_def by blast

theorem run_propagates_exceptions_witness:
  "fst (run failing_env example_state) = Inl (External ''disk full'') \<and>
   saved_files (trace (snd (run failing_env example_state))) = [''a.json''] \<and>
   propagated failing_env [] (trace (snd (run failing_env example_state)))
     (Some (External ''disk full''))"
proof -
  have t: "trace example_state = []"
    by (simp add: example_state_def)
  from run_propagates_exceptions[of example_state failing_env] show ?thesis
    by (simp add: failing_run new_events_def t)
qed

text \<open>
  C7. When neither repository reports a changed file, \<open>run\<close> returns an output whose
  collection of documents is empty and leaves the state as it was: no call to the model,
  no save, no file.
\<close>

theorem run_nothing_changed:
  assumes "changed_prds s = []" and "changed_system_designs s = []"
  shows "run E s =
           (Inr \<lparr>output_content = documents_json \<lparr>docs = []\<rparr>,
                 instruct_content = \<lparr>docs = []\<rparr>\<rparr>, s) \<and>
         new_events s (snd (run E s)) = []"
  using assms by (simp add: run_def and_then_def return_def new_events_def)

theorem run_nothing_changed_witness:
  "changed_prds unchanged_state = [] \<and> changed_system_designs unchanged_state = [] \<and>
   run example_env unchanged_state =
     (Inr \<lparr>output_content = documents_json \<lparr>docs = []\<rparr>,
           instruct_content = \<lparr>docs = []\<rparr>\<rparr>, unchanged_state) \<and>
   new_events unchanged_state (snd (run example_env unchanged_state)) = []"
proof -
  have c: "changed_prds unchanged_state = []" "changed_system_designs unchanged_state = []"
    by (simp_all add: unchanged_state_def)
  from run_nothing_changed[OF c, of example_env] c show ?thesis
    by (simp add: new_events_def)
qed

text \<open>
  C1. When \<open>_update_system_design\<close> returns for a file name, the requirement of that
  name exists and the decision was the two-branch conditional: with no design stored
  under the name, the model was asked once, with the design prompt built from the
  content of the requirement, and the result is a new document of the system-design
  repository; with a design stored, the model was asked once, with the merge prompt of
  the old design and the content of the requirement, and the result is the stored
  document with its content replaced.
\<close>

theorem update_new_or_merge:
  assumes "update_system_design E f s = (Inr doc, s')"
  shows "\<exists>c out. prds s f = Some c \<and>
     (case system_designs s f of
        None \<Rightarrow>
          aask_v1 E (trace s) (DesignPrompt (prompt_format E) c) = Inr out \<and>
          prompts (new_events s s') = [DesignPrompt (prompt_format E) c] \<and>
          doc = \<lparr>root_path = SYSTEM_DESIGN_FILE_REPO E, filename = f,
                 content = json_of (instruct_content (fix_output out))\<rparr>
      | Some old \<Rightarrow>
          aask_v1 E (trace s) (MergePrompt old c) = Inr out \<and>
          prompts (new_events s s') = [MergePrompt old c] \<and>
          doc = \<lparr>root_path = SYSTEM_DESIGN_FILE_REPO E, filename = f, content = old\<rparr>
                  \<lparr>content := json_of (instruct_content (fix_output out))\<rparr>)"
proof -
  from update_success[OF assms] obtain c out where
    "prds s f = Some c" "aask_v1 E (trace s) (the_prompt E s f c) = Inr out"
    "doc = design_doc E f out" "s' = updated E s f c out"
    by blast
  then show ?thesis
    by (intro exI[of _ c] exI[of _ out])
       (auto simp: the_prompt_def design_doc_def split: option.splits)
qed

theorem update_new_or_merge_witness:
  "update_system_design example_env ''a.json'' example_state =
     (Inr (design_doc example_env ''a.json'' example_output),
      updated example_env example_state ''a.json'' (Plain ''PRD a'') example_output) \<and>
   system_designs example_state ''a.json'' = None \<and>
   prompts (new_events example_state
      (updated example_env example_state ''a.json'' (Plain ''PRD a'') example_output)) =
     [DesignPrompt ''json'' (Plain ''PRD a'')]"
proof -
  have n: "system_designs example_state ''a.json'' = None"
    and p: "prds example_state ''a.json'' = Some (Plain ''PRD a'')"
    and f: "prompt_format example_env = ''json''"
    by (simp_all add: example_state_def example_env_def)
  from update_new_or_merge[OF example_update_a] n p f example_update_a show ?thesis
    by auto
qed

text \<open>
  C2. The content that \<open>_update_system_design\<close> saves, in either branch, is the
  serialisation of an object of the six attributes: it is stored under the file name,
  \<open>json.loads\<close> reads it as a JSON object whose keys are those of
  \<open>OUTPUT_MAPPING\<close>, that object validates against the mapping, and serialising
  the validated object gives the same content.
\<close>

theorem persisted_design_has_six_fields:
  assumes "update_system_design E f s = (Inr doc, s')"
  shows "\<exists>d. system_designs s' f = Some (content doc) \<and>
     (\<exists>deps. Save f (content doc) deps \<in> set (new_events s s')) \<and>
     content doc = json_of d \<and>
     loads E (content doc) = Inr (instruct_json d) \<and>
     json_keys (instruct_json d) = OUTPUT_MAPPING \<and>
     parse_design (instruct_json d) = Some d"
proof -
  from update_success[OF assms] obtain c out where
    d: "doc = design_doc E f out" and s': "s' = updated E s f c out"
    by blast
  show ?thesis
    by (rule exI[of _ "instruct_content (fix_output out)"])
       (auto simp: d s' design_doc_def loads_json_of json_keys_instruct_json
          parse_design_instruct_json unit_events_def Let_def)
qed

theorem persisted_design_has_six_fields_witness:
  "update_system_design example_env ''a.json'' example_state =
     (Inr (design_doc example_env ''a.json'' example_output),
      updated example_env example_state ''a.json'' (Plain ''PRD a'') example_output) \<and>
   (\<exists>d. system_designs
          (updated example_env example_state ''a.json'' (Plain ''PRD a'') example_output)
          ''a.json'' = Some (json_of d) \<and>
        json_keys (instruct_json d) = OUTPUT_MAPPING \<and>
        parse_design (instruct_json d) = Some d \<and>
        loads example_env (json_of d) = Inr (instruct_json d))"
  using persisted_design_has_six_fields[OF example_update_a] example_update_a
  by auto

text \<open>
  C10. In the merge branch the result is the document that \<open>_merge\<close> returns for the
  stored design, and it differs from the stored document in its content only: file name
  and root path are the same, and the one save of the update is under that file name.
\<close>

theorem merge_keeps_filename_and_root_path:
  assumes "system_designs s f = Some old"
    and "update_system_design E f s = (Inr doc, s')"
  shows "\<exists>old_doc s1.
     repo_get (SYSTEM_DESIGN_FILE_REPO E) (system_designs s) f = Some old_doc \<and>
     merge_design E (repo_get (PRDS_FILE_REPO E) (prds s) f) old_doc s = (Inr doc, s1) \<and>
     doc = old_doc\<lparr>content := content doc\<rparr> \<and>
     filename doc = filename old_doc \<and> root_path doc = root_path old_doc \<and>
     filename old_doc = f \<and>
     saved_files (new_events s s') = [f] \<and>
     system_designs s' f = Some (content doc)"
proof -
  from update_success[OF assms(2)] obtain c out where
    c: "prds s f = Some c" and a: "aask_v1 E (trace s) (the_prompt E s f c) = Inr out" and
    d: "doc = design_doc E f out" and s': "s' = updated E s f c out"
    by blast
  let ?old = "\<lparr>root_path = SYSTEM_DESIGN_FILE_REPO E, filename = f, content = old\<rparr>"
  have m: "merge_design E (repo_get (PRDS_FILE_REPO E) (prds s) f) ?old s =
      (Inr doc, s\<lparr>trace := trace s @ [Aask (MergePrompt old c)]\<rparr>)"
    using a assms(1)
    by (simp add: merge_design_def repo_get_def c and_then_def aask_def return_def
        the_prompt_def d design_doc_def)
  show ?thesis
    by (rule exI[of _ ?old], rule exI)
       (use m in \<open>simp add: repo_get_def assms(1) d s' design_doc_def\<close>)
qed

theorem merge_keeps_filename_and_root_path_witness:
  "system_designs (updated example_env example_state ''a.json'' (Plain ''PRD a'')
      example_output) ''b.json'' = Some (Plain ''old design b'') \<and>
   filename (design_doc example_env ''b.json'' example_output) = ''b.json'' \<and>
   root_path (design_doc example_env ''b.json'' example_output) = ''docs/system_design'' \<and>
   saved_files (new_events
      (updated example_env example_state ''a.json'' (Plain ''PRD a'') example_output)
      (updated example_env
        (updated example_env example_state ''a.json'' (Plain ''PRD a'') example_output)
        ''b.json'' (Plain ''PRD b'') example_output)) = [''b.json'']"
proof -
  have o: "system_designs (updated example_env example_state ''a.json'' (Plain ''PRD a'')
      example_output) ''b.json'' = Some (Plain ''old design b'')"
    by (simp add: example_state_def)
  from merge_keeps_filename_and_root_path[OF o example_update_b] o show ?thesis
    by (auto simp: repo_get_def example_env_def)
qed

text \<open>
  C3, as stated, fails: with a model that leaves the text of the class diagram empty,
  \<open>run\<close> returns, both changed files are saved, and the only diagrams rendered are
  the two sequence diagrams. \<open>_save_data_api_design\<close> returns early on an empty text.
\<close>

theorem two_diagrams_counterexample:
  "raised (fst (run no_diagram_env example_state)) = None \<and>
   saved_files (trace (snd (run no_diagram_env example_state))) = [''a.json'', ''b.json''] \<and>
   rendered (trace (snd (run no_diagram_env example_state))) =
     [(JStr (Plain ''sequenceDiagram''), ''/workspace/snake_game/resources/seq_flow/a''),
      (JStr (Plain ''sequenceDiagram''), ''/workspace/snake_game/resources/seq_flow/b'')]"
proof -
  have t: "trace example_state = []" and ra: "system_designs example_state ''a.json'' = None"
    and w: "\<not> WORKDIR no_diagram_env"
    and k: "workdir_parent no_diagram_env = ''/workspace''"
      "SEQ_FLOW_FILE_REPO no_diagram_env = ''resources/seq_flow''"
    by (simp_all add: example_state_def no_diagram_env_def example_env_def)
  have pa: "diagram_path no_diagram_env ''snake_game'' ''resources/seq_flow'' ''a.json'' =
      Inr ''/workspace/snake_game/resources/seq_flow/a''"
    and pb: "diagram_path no_diagram_env ''snake_game'' ''resources/seq_flow'' ''b.json'' =
      Inr ''/workspace/snake_game/resources/seq_flow/b''"
    by (simp_all add: diagram_path_def k path_join_def)
  show ?thesis
    by (simp add: no_diagram_run t rendered_unit_events no_diagram_fields root_after_def ra w
        k pa pb)
qed

text \<open>
  C3, amended. A run that returns has performed one whole unit of work for every changed
  file name: the file names it processed are exactly the keys of the changed
  requirements and of the changed designs, and the calls it made are, block after
  block, those of one returning update for each of these file names, each update
  starting in the state where the previous one ended. The calls of the update of a
  file name are, in this order: the model with the prompt of the branch, whose answer
  is parsed into the six fields, the rename of the workspace (new branch without a
  configured work directory only), the save of the design under the file name, the
  render of the class diagram when its text is not empty, the render of the sequence
  diagram when its text is not empty, and the PDF of the design. So for each changed
  file name one diagram is rendered for each of the two texts that is not empty.
\<close>

theorem run_unit_of_work:
  assumes "run E s = (Inr out, s')"
  shows "set (processed s) =
       fst ` set (changed_prds s) \<union> fst ` set (changed_system_designs s) \<and>
     (\<exists>blocks. new_events s s' = concat blocks \<and>
        unit_blocks E (processed s) blocks s s')"
proof -
  from run_blocks[OF assms] obtain s1 b1 b2 where
    "unit_blocks E (map fst (changed_prds s)) b1 s s1"
    "unit_blocks E
       (unseen (set (map fst (changed_prds s))) (map fst (changed_system_designs s))) b2 s1 s'"
    "new_events s s' = concat b1 @ concat b2"
    by blast
  then have "new_events s s' = concat (b1 @ b2) \<and>
      unit_blocks E (processed s) (b1 @ b2) s s'"
    by (simp add: processed_def unit_blocks_append)
  then show ?thesis
    using set_processed by blast
qed

theorem run_unit_of_work_witness:
  "raised (fst (run example_env example_state)) = None \<and>
   processed example_state = [''a.json'', ''b.json''] \<and>
   fst ` set (changed_prds example_state) \<union> fst ` set (changed_system_designs example_state) =
     {''a.json'', ''b.json''} \<and>
   (\<exists>blocks. new_events example_state (snd (run example_env example_state)) = concat blocks \<and>
      unit_blocks example_env [''a.json'', ''b.json''] blocks example_state
        (snd (run example_env example_state)))"
proof -
  have k: "fst ` set (changed_prds example_state) \<union>
      fst ` set (changed_system_designs example_state) = {''a.json'', ''b.json''}"
    by (auto simp: example_state_def)
  from run_unit_of_work[OF example_run] k show ?thesis
    by (simp add: example_run example_processed)
qed

text \<open>
  C9, as stated, fails: the three \<open>strip\<close> calls run once each, in a fixed order, so a
  package name in double quotes around single quotes is stored with its single quotes.
\<close>

theorem quoted_package_name_counterexample:
  "persisted_package_name (snd (update_system_design quoted_env ''a.json'' example_state))
     ''a.json'' = Some (CHR 0x27 # ''snake_game'' @ [CHR 0x27]) \<and>
   hd (CHR 0x27 # ''snake_game'' @ [CHR 0x27]) = single_quote"
  by (simp add: quoted_update_a fix_quoted_name single_quote_def)

text \<open>
  C9, amended. In both branches the package name stored with the design is the value of
  the model after the three \<open>strip\<close> calls of the source, once each and in their order:
  white space, then single quotes, then double quotes. It neither begins nor ends with a
  double quote.
\<close>

theorem persisted_package_name_stripped:
  assumes "update_system_design E f s = (Inr doc, s')"
  shows "\<exists>c out. aask_v1 E (trace s) (the_prompt E s f c) = Inr out \<and>
     persisted_package_name s' f =
       Some (fix_package_name (Python_package_name (instruct_content out))) \<and>
     (fix_package_name (Python_package_name (instruct_content out)) = [] \<or>
      (hd (fix_package_name (Python_package_name (instruct_content out))) \<noteq> double_quote \<and>
       last (fix_package_name (Python_package_name (instruct_content out))) \<noteq> double_quote))"
proof -
  from update_success[OF assms] obtain c out where
    a: "aask_v1 E (trace s) (the_prompt E s f c) = Inr out" and s': "s' = updated E s f c out"
    by blast
  have "fix_package_name (Python_package_name (instruct_content out)) = [] \<or>
      (hd (fix_package_name (Python_package_name (instruct_content out))) \<noteq> double_quote \<and>
       last (fix_package_name (Python_package_name (instruct_content out))) \<noteq> double_quote)"
    unfolding fix_package_name_def
    using strip_chars_ends[of "\<lambda>c. c = double_quote"] by blast
  with a show ?thesis
    by (auto simp: s')
qed

theorem persisted_package_name_stripped_witness:
  "update_system_design example_env ''a.json'' example_state =
     (Inr (design_doc example_env ''a.json'' example_output),
      updated example_env example_state ''a.json'' (Plain ''PRD a'') example_output) \<and>
   persisted_package_name
     (updated example_env example_state ''a.json'' (Plain ''PRD a'') example_output)
     ''a.json'' = Some ''snake_game''"
proof -
  have a: "\<And>h p. aask_v1 example_env h p = Inr example_output"
    by (simp add: example_env_def)
  from persisted_package_name_stripped[OF example_update_a] a example_update_a
  show ?thesis
    by (auto simp: fix_example_name)
qed

text \<open>
  C5. The file names that a run updates are the changed requirements followed by the
  changed designs that are not yet among the keys of the result. When the keys of the
  changed requirements are distinct (they are the keys of a dict), this list has no
  repetition, and no changed design that is also a changed requirement is in its second
  part. Whether the run returns or raises, the file names it saved are an initial part
  of the list, so no file name is saved twice. When the run returns, it made one whole
  update for each file name of the list, in order, and the returned documents have
  exactly these file names as keys, each key with a document of that name.
\<close>

theorem each_file_updated_at_most_once:
  assumes "distinct (map fst (changed_prds s))" and "run E s = (r, s')"
  shows "distinct (processed s) \<and>
     set (unseen (set (map fst (changed_prds s))) (map fst (changed_system_designs s))) \<inter>
       set (map fst (changed_prds s)) = {} \<and>
     prefix (saved_files (new_events s s')) (processed s) \<and>
     distinct (saved_files (new_events s s')) \<and>
     (\<forall>out. r = Inr out \<longrightarrow>
        (\<exists>blocks. new_events s s' = concat blocks \<and>
           unit_blocks E (processed s) blocks s s') \<and>
        saved_files (new_events s s') = processed s \<and>
        map fst (docs (instruct_content out)) = processed s \<and>
        (\<forall>(k, d) \<in> set (docs (instruct_content out)). filename d = k))"
proof -
  note d = distinct_processed[OF assms(1)]
  from run_saves[OF assms(2)] have p: "prefix (saved_files (new_events s s')) (processed s)"
    by simp
  have u: "set (unseen (set (map fst (changed_prds s))) (map fst (changed_system_designs s))) \<inter>
       set (map fst (changed_prds s)) = {}"
    using unseen_fresh[of "set (map fst (changed_prds s))"] by blast
  have "(\<exists>blocks. new_events s s' = concat blocks \<and>
           unit_blocks E (processed s) blocks s s') \<and>
        saved_files (new_events s s') = processed s \<and>
        map fst (docs (instruct_content out)) = processed s \<and>
        (\<forall>(k, d) \<in> set (docs (instruct_content out)). filename d = k)"
    if "r = Inr out" for out
  proof -
    note ru = assms(2)[unfolded that]
    from run_ok[OF ru] assms(1) have
      "saved_files (new_events s s') = processed s"
      "map fst (docs (instruct_content out)) = processed s"
      by blast+
    moreover from run_blocks[OF ru] obtain s1 b1 b2 where
      "unit_blocks E (map fst (changed_prds s)) b1 s s1"
      "unit_blocks E
         (unseen (set (map fst (changed_prds s))) (map fst (changed_system_designs s)))
         b2 s1 s'"
      "new_events s s' = concat b1 @ concat b2"
      by blast
    then have "new_events s s' = concat (b1 @ b2) \<and>
        unit_blocks E (processed s) (b1 @ b2) s s'"
      by (simp add: processed_def unit_blocks_append)
    ultimately show ?thesis
      using run_named[OF ru] by blast
  qed
  with p d u prefix_distinct[OF p d] show ?thesis by blast
qed

theorem each_file_updated_at_most_once_witness:
  "distinct (map fst (changed_prds example_state)) \<and>
   raised (fst (run example_env example_state)) = None \<and>
   map fst (changed_prds example_state) = [''a.json''] \<and>
   map fst (changed_system_designs example_state) = [''a.json'', ''b.json''] \<and>
   processed example_state = [''a.json'', ''b.json''] \<and>
   saved_files (new_events example_state (snd (run example_env example_state))) =
     [''a.json'', ''b.json''] \<and>
   map fst (docs (instruct_content (projr (fst (run example_env example_state))))) =
     [''a.json'', ''b.json'']"
proof -
  have d: "distinct (map fst (changed_prds example_state))"
    and k: "map fst (changed_prds example_state) = [''a.json'']"
      "map fst (changed_system_designs example_state) = [''a.json'', ''b.json'']"
    by (simp_all add: example_state_def)
  from each_file_updated_at_most_once[OF d example_run] d k show ?thesis
    by (simp add: example_run example_processed)
qed

text \<open>
  C6. A run processes the changed file names one after the other. A run that returns is
  a chain of whole updates, each starting in the state where the previous one ended:
  first one update for each changed requirement, in the order of the dict, and only
  when the last of them has returned one update for each changed design that is not
  yet in the result. The calls it adds to the trace are the blocks of these updates,
  one after the other in that order, each block the whole unit of work of its file
  name: no call for one file name stands between the calls for another. A run that
  raises is such a chain for the file names before some file name of that order,
  followed by the update of this file name, which raises the exception of the run; no
  update is begun for the file names after it.
\<close>

theorem run_is_sequential:
  assumes "run E s = (r, s')"
  shows "(\<forall>out. r = Inr out \<longrightarrow>
       (\<exists>s1 b1 b2.
          unit_blocks E (map fst (changed_prds s)) b1 s s1 \<and>
          unit_blocks E
            (unseen (set (map fst (changed_prds s))) (map fst (changed_system_designs s)))
            b2 s1 s' \<and>
          new_events s s' = concat b1 @ concat b2 \<and>
          list_all2 unit_of_work (processed s) (b1 @ b2))) \<and>
     (\<forall>e. r = Inl e \<longrightarrow>
       (\<exists>before f rest blocks s1.
          processed s = before @ f # rest \<and>
          unit_blocks E before blocks s s1 \<and>
          update_system_design E f s1 = (Inl e, s') \<and>
          new_events s s' = concat blocks @ new_events s1 s'))"
proof (cases r)
  case (Inr out)
  from run_blocks[OF assms[unfolded Inr]] obtain s1 b1 b2 where
    b: "unit_blocks E (map fst (changed_prds s)) b1 s s1"
    "unit_blocks E
       (unseen (set (map fst (changed_prds s))) (map fst (changed_system_designs s))) b2 s1 s'"
    "new_events s s' = concat b1 @ concat b2"
    by blast
  from unit_blocks_shape[OF unit_blocks_append[OF b(1) b(2)]]
  have "list_all2 unit_of_work (processed s) (b1 @ b2)"
    by (simp add: processed_def)
  with b Inr show ?thesis by blast
next
  case (Inl e)
  from run_raises[OF assms[unfolded Inl]] Inl show ?thesis by blast
qed

theorem run_is_sequential_witness:
  "raised (fst (run example_env example_state)) = None \<and>
   map fst (changed_prds example_state) = [''a.json''] \<and>
   unseen (set (map fst (changed_prds example_state)))
     (map fst (changed_system_designs example_state)) = [''b.json''] \<and>
   (\<exists>s1 b1 b2.
     unit_blocks example_env [''a.json''] b1 example_state s1 \<and>
     unit_blocks example_env [''b.json''] b2 s1 (snd (run example_env example_state)) \<and>
     new_events example_state (snd (run example_env example_state)) = concat b1 @ concat b2 \<and>
     list_all2 unit_of_work [''a.json'', ''b.json''] (b1 @ b2)) \<and>
   raised (fst (run failing_env example_state)) = Some (External ''disk full'') \<and>
   (\<exists>before f rest blocks s1.
     [''a.json'', ''b.json''] = before @ f # rest \<and>
     unit_blocks failing_env before blocks example_state s1 \<and>
     update_system_design failing_env f s1 =
       (Inl (External ''disk full''), snd (run failing_env example_state)) \<and>
     new_events example_state (snd (run failing_env example_state)) =
       concat blocks @ new_events s1 (snd (run failing_env example_state)))"
proof -
  have k: "map fst (changed_prds example_state) = [''a.json'']"
    "unseen (set (map fst (changed_prds example_state)))
       (map fst (changed_system_designs example_state)) = [''b.json'']"
    by (simp_all add: example_state_def)
  from run_is_sequential[OF example_run] k have ok:
    "\<exists>s1 b1 b2.
     unit_blocks example_env [''a.json''] b1 example_state s1 \<and>
     unit_blocks example_env [''b.json''] b2 s1 (snd (run example_env example_state)) \<and>
     new_events example_state (snd (run example_env example_state)) = concat b1 @ concat b2 \<and>
     list_all2 unit_of_work [''a.json'', ''b.json''] (b1 @ b2)"
    by (simp add: example_run example_processed)
  from run_is_sequential[OF failing_run] have bad:
    "\<exists>before f rest blocks s1.
     [''a.json'', ''b.json''] = before @ f # rest \<and>
     unit_blocks failing_env before blocks example_state s1 \<and>
     update_system_design failing_env f s1 =
       (Inl (External ''disk full''), snd (run failing_env example_state)) \<and>
     new_events example_state (snd (run failing_env example_state)) =
       concat blocks @ new_events s1 (snd (run failing_env example_state))"
    by (simp add: failing_run example_processed)
  from ok bad k show ?thesis
    by (simp add: example_run failing_run)
qed

text \<open>
  C8, as stated, fails: an update in the new-design branch, with no work directory
  configured, also renames the root directory of the workspace.
\<close>

theorem rename_root_counterexample:
  "root_name example_state = ''20231127'' \<and>
   root_name (snd (update_system_design example_env ''a.json'' example_state)) =
     ''snake_game'' \<and>
   RenameRoot ''snake_game'' \<in>
     set (trace (snd (update_system_design example_env ''a.json'' example_state)))"
proof -
  have n: "system_designs example_state ''a.json'' = None" "\<not> WORKDIR example_env"
    "root_name example_state = ''20231127''"
    by (simp_all add: example_state_def example_env_def)
  have p: "Python_package_name (instruct_content (fix_output example_output)) = ''snake_game''"
    by (simp add: fix_output_def fix_example_name)
  show ?thesis
    by (simp add: example_update_a n p root_after_def unit_events_def Let_def
        rename_events_def)
qed

text \<open>
  C8, amended. Whether it returns or raises, an update of the file \<open>f\<close> leaves the
  requirements and the designs of all other file names as they were, and makes at most
  one save, under \<open>f\<close>. When it returns the document \<open>doc\<close>, the repository holds under
  \<open>f\<close> exactly the content of \<open>doc\<close>, and every call it made is the call to the model,
  the save of that content under \<open>f\<close>, a render of a diagram of \<open>f\<close>, the PDF of
  \<open>doc\<close>, or the rename of the root directory; the root directory is renamed in the
  new-design branch without a configured work directory only.
\<close>

theorem update_writes_only_its_file:
  assumes "update_system_design E f s = (r, s')"
  shows "prds s' = prds s \<and>
     (\<forall>g. g \<noteq> f \<longrightarrow> system_designs s' g = system_designs s g) \<and>
     prefix (saved_files (new_events s s')) [f] \<and>
     (\<forall>doc. r = Inr doc \<longrightarrow>
        system_designs s' f = Some (content doc) \<and>
        list_all (written_for E f doc (root_name s')) (new_events s s') \<and>
        (root_name s' = root_name s \<or> (system_designs s f = None \<and> \<not> WORKDIR E)))"
proof -
  note w = wroteD[OF update_system_design_wrote[OF assms]]
  have "system_designs s' f = Some (content doc) \<and>
        list_all (written_for E f doc (root_name s')) (new_events s s') \<and>
        (root_name s' = root_name s \<or> (system_designs s f = None \<and> \<not> WORKDIR E))"
    if "r = Inr doc" for doc
  proof -
    from update_success[OF assms[unfolded that]] obtain c out where
      d: "doc = design_doc E f out" and s': "s' = updated E s f c out"
      by blast
    show ?thesis
      using written_for_unit_events[of E f out s c]
      by (auto simp: d s' design_doc_def root_after_def)
  qed
  with w show ?thesis by blast
qed

theorem update_writes_only_its_file_witness:
  "system_designs (snd (update_system_design example_env ''a.json'' example_state))
     ''b.json'' = system_designs example_state ''b.json'' \<and>
   system_designs (snd (update_system_design example_env ''a.json'' example_state))
     ''a.json'' = Some (content (design_doc example_env ''a.json'' example_output)) \<and>
   saved_files (new_events example_state
     (snd (update_system_design example_env ''a.json'' example_state))) = [''a.json''] \<and>
   list_all (written_for example_env ''a.json''
       (design_doc example_env ''a.json'' example_output) ''snake_game'')
     (new_events example_state
       (snd (update_system_design example_env ''a.json'' example_state)))"
proof -
  have n: "system_designs example_state ''a.json'' = None" "\<not> WORKDIR example_env"
    by (simp_all add: example_state_def example_env_def)
  have p: "Python_package_name (instruct_content (fix_output example_output)) = ''snake_game''"
    by (simp add: fix_output_def fix_example_name)
  from update_writes_only_its_file[OF example_update_a] show ?thesis
    by (simp add: example_update_a design_doc_def root_after_def n p)
qed

end
